(* ===== verification/Prelude.thy ===== *)
theory Prelude
  imports Complex_Main
begin

text \<open>
  Shared vocabulary of the development: the Python built-ins the script
  \<^verbatim>\<open>scripts/short_audio_transcribe.py\<close> relies on (\<open>str.startswith\<close>,
  \<open>str.endswith\<close>, \<open>os.path.join\<close>, \<open>str(i)\<close> of a non-negative integer),
  written as executable HOL functions, and the generic list and string lemmas
  the component theories share.  The collection \<open>pipeline_simps\<close> gathers the
  unfolding rules of the per-file pipeline; \<open>name_lemmas\<close> the facts used to
  tell file names apart.
\<close>

named_theorems pipeline_simps "unfolding rules of the per-file pipeline"
named_theorems name_lemmas "facts that separate generated file names"

type_synonym name = string
type_synonym path = string

text \<open>The Python exceptions the script can meet, with the detail its messages
  print.  \<open>LibError\<close> is any exception raised inside torchaudio or whisper,
  which the model treats as black boxes (see \<open>Normalizer\<close>, \<open>Transcriber\<close>).\<close>

datatype py_exc =
    AssertionError string
  | FileNotFoundError string
  | NotADirectoryError string
  | IsADirectoryError string
  | KeyError string
  | TypeError
  | JSONDecodeError
  | ZeroDivisionError
  | LibError string

subsection \<open>Python string built-ins\<close>

definition startswith :: "string \<Rightarrow> string \<Rightarrow> bool" where
  "startswith s p \<longleftrightarrow> take (length p) s = p"

definition endswith :: "string \<Rightarrow> string \<Rightarrow> bool" where
  "endswith s p \<longleftrightarrow> length p \<le> length s \<and> drop (length s - length p) s = p"

text \<open>\<open>os.path.join(a, b)\<close> on POSIX: an absolute \<open>b\<close> replaces \<open>a\<close>; otherwise a
  separator is inserted unless \<open>a\<close> is empty or already ends in one.\<close>

definition py_join :: "path \<Rightarrow> name \<Rightarrow> path" where
  "py_join a b =
     (if startswith b ''/'' then b
      else if a = [] \<or> last a = CHR ''/'' then a @ b
      else a @ CHR ''/'' # b)"

text \<open>\<open>str(n)\<close> for \<open>n \<ge> 0\<close>: decimal digits, most significant first.\<close>

definition digit_char :: "nat \<Rightarrow> char" where
  "digit_char d = char_of (48 + d)"

fun nat_str :: "nat \<Rightarrow> string" where
  "nat_str n = (if n < 10 then [digit_char n] else nat_str (n div 10) @ [digit_char (n mod 10)])"

declare nat_str.simps [simp del]

text \<open>\<open>int(s)\<close> on a string of decimal digits, the inverse of \<open>nat_str\<close>.\<close>

definition str_nat :: "string \<Rightarrow> nat" where
  "str_nat s = foldl (\<lambda>n c. 10 * n + (of_char c - 48)) 0 s"

definition is_digit :: "char \<Rightarrow> bool" where
  "is_digit c \<longleftrightarrow> 48 \<le> (of_char c :: nat) \<and> (of_char c :: nat) \<le> 57"

subsection \<open>Lemmas on the string built-ins\<close>

lemma startswith_append [simp]: "startswith (p @ xs) p"
  by (simp add: startswith_def)

lemma endswith_append [simp]: "endswith (xs @ p) p"
  by (simp add: endswith_def)

lemma digit_char_of [simp]: "d < 10 \<Longrightarrow> (of_char (digit_char d) :: nat) = 48 + d"
  by (simp add: digit_char_def)

lemma str_nat_snoc: "str_nat (xs @ [c]) = 10 * str_nat xs + (of_char c - 48)"
  by (simp add: str_nat_def)

text \<open>Printing then parsing a number gives it back: the round trip of \<open>str\<close>.\<close>

lemma str_nat_nat_str [simp]: "str_nat (nat_str n) = n"
proof (induction n rule: nat_str.induct)
  case (1 n)
  show ?case
  proof (cases "n < 10")
    case True
    then show ?thesis by (simp add: nat_str.simps [of n] str_nat_def)
  next
    case False
    with "1.IH" show ?thesis
      by (simp add: nat_str.simps [of n] str_nat_snoc)
  qed
qed

lemma nat_str_inj [name_lemmas]: "nat_str m = nat_str n \<longleftrightarrow> m = n"
  by (metis str_nat_nat_str)

lemma nat_str_digits [name_lemmas]: "c \<in> set (nat_str n) \<Longrightarrow> is_digit c"
proof (induction n rule: nat_str.induct)
  case (1 n)
  have d: "\<And>d. d < 10 \<Longrightarrow> is_digit (digit_char d)"
    by (simp add: is_digit_def)
  show ?case
  proof (cases "n < 10")
    case True
    with "1.prems" d show ?thesis by (simp add: nat_str.simps [of n])
  next
    case False
    with "1.prems" "1.IH" d show ?thesis
      by (auto simp: nat_str.simps [of n])
  qed
qed

text \<open>Splitting at the first occurrence of a separator is unambiguous: the
  lemma behind every "these two generated names differ" argument.\<close>

lemma append_sep_eq [name_lemmas]:
  "c \<notin> set a \<Longrightarrow> c \<notin> set b \<Longrightarrow> a @ c # x = b @ c # y \<longleftrightarrow> a = b \<and> x = y"
proof (induction a arbitrary: b)
  case Nil
  then show ?case by (cases b) auto
next
  case (Cons a as)
  then show ?case by (cases b) auto
qed

text \<open>A concatenation is free of repeats when its pieces are, and no two pieces
  share an element.\<close>

lemma distinct_concat_map:
  "distinct xs \<Longrightarrow> \<forall>x \<in> set xs. distinct (g x) \<Longrightarrow>
   \<forall>x \<in> set xs. \<forall>y \<in> set xs. x \<noteq> y \<longrightarrow> set (g x) \<inter> set (g y) = {} \<Longrightarrow>
   distinct (concat (map g xs))"
  by (induction xs) fastforce+

text \<open>Filtering the keys of an association list with distinct keys and looking
  each up is filtering the pairs.\<close>

lemma filter_map_fst_map_of:
  "distinct (map fst cs) \<Longrightarrow>
   map (\<lambda>n. g n (map_of cs n)) (filter (\<lambda>n. P (map_of cs n)) (map fst cs)) =
   map (\<lambda>p. g (fst p) (Some (snd p))) (filter (\<lambda>p. P (Some (snd p))) cs)"
proof (induction cs)
  case Nil
  then show ?case by simp
next
  case (Cons p cs)
  obtain a b where p: "p = (a, b)" by (cases p)
  from Cons.prems p have na: "a \<notin> set (map fst cs)" and d: "distinct (map fst cs)" by auto
  have f: "filter (\<lambda>n. P (map_of ((a, b) # cs) n)) (map fst cs) = filter (\<lambda>n. P (map_of cs n)) (map fst cs)"
    using na by (intro filter_cong) auto
  have m: "map (\<lambda>n. g n (map_of ((a, b) # cs) n)) (filter (\<lambda>n. P (map_of cs n)) (map fst cs)) =
           map (\<lambda>n. g n (map_of cs n)) (filter (\<lambda>n. P (map_of cs n)) (map fst cs))"
    using na by (intro map_cong) auto
  from Cons.IH [OF d] f m p show ?case by simp
qed

lemma sum_list_concat_map: "sum_list (concat xss) = sum_list (map sum_list xss)"
  by (induction xss) simp_all

lemma concat_map_filter_nil:
  "(\<And>y. y \<in> set xs \<Longrightarrow> \<not> P y \<Longrightarrow> g y = []) \<Longrightarrow> concat (map g (filter P xs)) = concat (map g xs)"
  by (induction xs) auto

lemma append_sep_eq_list [name_lemmas]:
  "c \<notin> set a \<Longrightarrow> c \<notin> set b \<Longrightarrow> a @ c # x = b @ c # y \<Longrightarrow> a = b"
  using append_sep_eq by metis

end
