(* ===== verification/Language.thy ===== *)
theory Language
  imports Prelude
begin

text \<open>
  The language token map \<open>lang2token\<close> of \<^verbatim>\<open>short_audio_transcribe.py\<close>: its
  module-level default (lines 9--14) and the preset chosen by the
  \<^verbatim>\<open>--languages\<close> argument (lines 42--49).  A Python dict literal keeps its
  insertion order and has unique keys; it is an association list here, read with
  \<open>map_of\<close> (\<open>lang in lang2token\<close>, \<open>lang2token[lang]\<close>).
\<close>

type_synonym token_map = "(string \<times> string) list"

definition lang2token_default :: token_map where
  "lang2token_default = [(''zh'', ''[ZH]''), (''ja'', ''[JA]''), (''en'', ''[EN]''), (''ko'', ''[KO]'')]"

text \<open>The \<open>if/elif\<close> chain of lines 42--49; an unknown preset leaves the default.\<close>

definition select_lang2token :: "string \<Rightarrow> token_map" where
  "select_lang2token languages =
     (if languages = ''CJKE'' then [(''zh'', ''[ZH]''), (''ja'', ''[JA]''), (''en'', ''[EN]''), (''ko'', ''[KO]'')]
      else if languages = ''CJE'' then [(''zh'', ''[ZH]''), (''ja'', ''[JA]''), (''en'', ''[EN]'')]
      else if languages = ''CJ'' then [(''zh'', ''[ZH]''), (''ja'', ''[JA]'')]
      else if languages = ''C'' then [(''zh'', ''[ZH]'')]
      else lang2token_default)"

subsection \<open>Properties of the presets\<close>

text \<open>Korean, the language the transcriber forces, is a key exactly for the
  four-language preset and for any unknown preset.\<close>

lemma select_lang2token_ko:
  "map_of (select_lang2token l) ''ko'' =
     (if l \<in> {''CJE'', ''CJ'', ''C''} then None else Some ''[KO]'')"
  by (simp add: select_lang2token_def lang2token_default_def)

text \<open>A value outside the four presets keeps the module default, the four-language map.\<close>

lemma select_lang2token_other:
  "l \<notin> {''CJKE'', ''CJE'', ''CJ'', ''C''} \<Longrightarrow> select_lang2token l = select_lang2token ''CJKE''"
  by (simp add: select_lang2token_def lang2token_default_def)

end
