(* ===== verification/Fs.thy ===== *)
theory Fs
  imports Prelude
begin

text \<open>
  The part of the filesystem the script touches: the corpus directory
  \<^verbatim>\<open>./custom_character_voice/\<close> as a tree.  A directory is the ordered list of its
  entries, so that \<open>os.listdir\<close> returns them in the filesystem's enumeration
  order (any order the tree chooses); a file holds its bytes.  The operations
  are the primitives of lines 59--63 and 74--102 of the script: listing a
  directory, \<open>os.path.isdir\<close>, \<open>os.walk\<close> and the count of all files
  under the root, reading a file (inside \<open>torchaudio.load\<close> and
  \<open>whisper.load_audio\<close>) and writing one (inside \<open>torchaudio.save\<close>).
  Files are addressed by speaker directory and file name, the only depth the
  script reads or writes.  The lemmas give read-after-write and frame
  properties, show that every call of the walk is in the domain of its
  recursion, and equate the walk's total with the reference count.
\<close>

type_synonym bytes = "nat list"

datatype node = File bytes | Dir "(name \<times> node) list"

definition child :: "node \<Rightarrow> name \<Rightarrow> node option" where
  "child r n = (case r of File _ \<Rightarrow> None | Dir cs \<Rightarrow> map_of cs n)"

definition is_dir_node :: "node option \<Rightarrow> bool" where
  "is_dir_node x = (case x of Some (Dir _) \<Rightarrow> True | _ \<Rightarrow> False)"

text \<open>\<open>os.listdir\<close> of a directory; the script lists only directories.\<close>

definition dir_entries :: "node \<Rightarrow> name list" where
  "dir_entries r = (case r of File _ \<Rightarrow> [] | Dir cs \<Rightarrow> map fst cs)"

definition lookup2 :: "node \<Rightarrow> name \<Rightarrow> name \<Rightarrow> node option" where
  "lookup2 r spk f = (case child r spk of None \<Rightarrow> None | Some d \<Rightarrow> child d f)"

text \<open>Reading \<open>root/spk/f\<close>: a missing entry or a directory raises.\<close>

definition read_file :: "node \<Rightarrow> name \<Rightarrow> name \<Rightarrow> py_exc + bytes" where
  "read_file r spk f =
     (case lookup2 r spk f of
        None \<Rightarrow> Inl (FileNotFoundError f)
      | Some (Dir _) \<Rightarrow> Inl (IsADirectoryError f)
      | Some (File b) \<Rightarrow> Inr b)"

text \<open>Replacing an entry in place, or adding it at the end of the listing.\<close>

fun put_child :: "name \<Rightarrow> node \<Rightarrow> (name \<times> node) list \<Rightarrow> (name \<times> node) list" where
  "put_child n v [] = [(n, v)]"
| "put_child n v ((m, c) # cs) = (if m = n then (n, v) # cs else (m, c) # put_child n v cs)"

text \<open>Writing \<open>root/spk/n\<close>: the speaker directory must exist and \<open>n\<close> must
  not name a directory; an existing file is overwritten.\<close>

definition write_file :: "node \<Rightarrow> name \<Rightarrow> name \<Rightarrow> bytes \<Rightarrow> py_exc + node" where
  "write_file r spk n b =
     (case r of
        File _ \<Rightarrow> Inl (NotADirectoryError spk)
      | Dir cs \<Rightarrow>
          (case map_of cs spk of
             Some (Dir ds) \<Rightarrow>
               (case map_of ds n of
                  Some (Dir _) \<Rightarrow> Inl (IsADirectoryError n)
                | _ \<Rightarrow> Inr (Dir (put_child spk (Dir (put_child n (File b) ds)) cs)))
           | _ \<Rightarrow> Inl (FileNotFoundError spk)))"

text \<open>\<open>sum([len(files) for _, _, files in os.walk(root)])\<close>: every file at
  every depth, the root's own included.\<close>

fun count_files :: "node \<Rightarrow> nat" where
  "count_files (File _) = 0"
| "count_files (Dir cs) =
     sum_list (map (\<lambda>p. case snd p of File _ \<Rightarrow> 1 | Dir _ \<Rightarrow> count_files (snd p)) cs)"

text \<open>\<open>os.walk(top)\<close>, top-down: the triple \<open>(dirpath, dirnames, filenames)\<close>
  of a directory (its entries split by \<open>is_dir\<close>, in listing order), then the walks
  of its subdirectories in order, each at the joined path; a path that is not a
  directory yields nothing.  The recursion descends into a child, so it ends.\<close>

function (domintros) os_walk :: "path \<Rightarrow> node \<Rightarrow> (path \<times> name list \<times> name list) list" where
  "os_walk dirpath (File _) = []"
| "os_walk dirpath (Dir cs) =
     (dirpath, [n. (n, c) \<leftarrow> cs, is_dir_node (Some c)], [n. (n, c) \<leftarrow> cs, \<not> is_dir_node (Some c)]) #
     concat (map (\<lambda>(n, c). os_walk (py_join dirpath n) c) [(n, c) \<leftarrow> cs. is_dir_node (Some c)])"
  by pat_completeness auto
termination
  by (relation "measure (\<lambda>(dirpath, r). size r)") (fastforce intro: le_imp_less_Suc size_list_estimation')+

text \<open>Line 63: \<open>sum([len(files) for _, _, files in os.walk(parent_dir)])\<close>.\<close>

definition walk_total :: "path \<Rightarrow> node \<Rightarrow> nat" where
  "walk_total p r = sum_list [length files. (_, _, files) \<leftarrow> os_walk p r]"

definition writable :: "node \<Rightarrow> name \<Rightarrow> name \<Rightarrow> bool" where
  "writable r spk n \<longleftrightarrow> is_dir_node (child r spk) \<and> \<not> is_dir_node (lookup2 r spk n)"

text \<open>A corpus as the filesystem has it: no two entries of the root or of a
  speaker directory share a name.\<close>

definition is_file_node :: "node option \<Rightarrow> bool" where
  "is_file_node x = (case x of Some (File _) \<Rightarrow> True | _ \<Rightarrow> False)"

definition wf_corpus :: "node \<Rightarrow> bool" where
  "wf_corpus r \<longleftrightarrow> distinct (dir_entries r) \<and>
     (\<forall>n \<in> set (dir_entries r). case child r n of Some d \<Rightarrow> distinct (dir_entries d) | None \<Rightarrow> True)"

subsection \<open>Read and write\<close>

text \<open>A read sees only the entry it names.\<close>

lemma read_file_cong:
  "lookup2 r spk f = lookup2 r' spk f \<Longrightarrow> read_file r spk f = read_file r' spk f"
  by (simp add: read_file_def)

lemma map_of_put_child [simp]: "map_of (put_child n v cs) = (map_of cs)(n \<mapsto> v)"
  by (induction n v cs rule: put_child.induct) (auto simp: fun_eq_iff)

lemma map_fst_put_child:
  "n \<in> set (map fst cs) \<Longrightarrow> map fst (put_child n v cs) = map fst cs"
  by (induction n v cs rule: put_child.induct) auto

lemma map_fst_put_child_new:
  "map fst (put_child n v cs) = (if n \<in> set (map fst cs) then map fst cs else map fst cs @ [n])"
  by (induction n v cs rule: put_child.induct) auto

lemma write_file_Inr:
  "write_file r spk n b = Inr r' \<longleftrightarrow>
     writable r spk n \<and>
     (\<exists>cs ds. r = Dir cs \<and> map_of cs spk = Some (Dir ds) \<and>
              r' = Dir (put_child spk (Dir (put_child n (File b) ds)) cs))"
  by (auto simp: write_file_def writable_def is_dir_node_def lookup2_def child_def
           split: node.splits option.splits)

lemma write_file_ok: "(\<exists>r'. write_file r spk n b = Inr r') \<longleftrightarrow> writable r spk n"
  by (auto simp: write_file_Inr writable_def is_dir_node_def lookup2_def child_def
           split: node.splits option.splits)

lemma write_file_Inl_writable:
  "write_file r spk n b = Inl e \<Longrightarrow> \<not> writable r spk n"
  using write_file_ok [of r spk n b] by auto

lemma write_file_Inr_writable:
  "write_file r spk n b = Inr r' \<Longrightarrow> writable r spk n"
  using write_file_ok [of r spk n b] by auto

text \<open>What was written is read back.\<close>

lemma lookup2_write_same:
  "write_file r spk n b = Inr r' \<Longrightarrow> lookup2 r' spk n = Some (File b)"
  by (auto simp: write_file_Inr lookup2_def child_def)

text \<open>A write changes no other entry (frame property).\<close>

lemma lookup2_write_other:
  "write_file r spk n b = Inr r' \<Longrightarrow> (spk', m) \<noteq> (spk, n) \<Longrightarrow> lookup2 r' spk' m = lookup2 r spk' m"
  by (auto simp: write_file_Inr lookup2_def child_def)

lemma child_write_dir:
  "write_file r spk n b = Inr r' \<Longrightarrow> is_dir_node (child r' x) = is_dir_node (child r x)"
  by (cases "x = spk") (auto simp: write_file_Inr child_def is_dir_node_def)

lemma child_write_other:
  "write_file r spk n b = Inr r' \<Longrightarrow> x \<noteq> spk \<Longrightarrow> child r' x = child r x"
  by (auto simp: write_file_Inr child_def)

lemma dir_entries_write:
  "write_file r spk n b = Inr r' \<Longrightarrow> dir_entries r' = dir_entries r"
proof -
  assume "write_file r spk n b = Inr r'"
  then obtain cs ds where "r = Dir cs" "map_of cs spk = Some (Dir ds)"
      "r' = Dir (put_child spk (Dir (put_child n (File b) ds)) cs)"
    by (auto simp: write_file_Inr)
  moreover from \<open>map_of cs spk = Some (Dir ds)\<close> have "spk \<in> set (map fst cs)"
    by (auto dest: map_of_SomeD intro: rev_image_eqI)
  ultimately show ?thesis by (simp add: dir_entries_def map_fst_put_child)
qed

subsection \<open>Counting files\<close>

lemma count_file_children:
  "length (filter (\<lambda>p. is_file_node (Some (snd p))) ds) \<le> count_files (Dir ds)"
  by (induction ds) (auto simp: is_file_node_def split: node.splits)

lemma sum_dirs_le:
  "sum_list (map (\<lambda>p. case snd p of Dir ds \<Rightarrow> count_files (Dir ds) | _ \<Rightarrow> 0) (filter (\<lambda>p. is_dir_node (Some (snd p))) cs))
   \<le> count_files (Dir cs)"
  by (induction cs) (auto simp: is_dir_node_def split: node.splits)

subsection \<open>The walk\<close>

text \<open>The walk's file total is the number of files in the tree.\<close>

lemma walk_total_Dir:
  "walk_total p (Dir cs) = length [n. (n, c) \<leftarrow> cs, \<not> is_dir_node (Some c)] +
     sum_list (map (\<lambda>(n, c). walk_total (py_join p n) c) [(n, c) \<leftarrow> cs. is_dir_node (Some c)])"
  by (simp add: walk_total_def sum_list_concat_map map_concat comp_def split_def)

lemma children_total:
  "(\<And>n c. (n, c) \<in> set cs \<Longrightarrow> walk_total (py_join p n) c = count_files c) \<Longrightarrow>
   length [n. (n, c) \<leftarrow> cs, \<not> is_dir_node (Some c)] +
   sum_list (map (\<lambda>(n, c). walk_total (py_join p n) c) [(n, c) \<leftarrow> cs. is_dir_node (Some c)]) =
   count_files (Dir cs)"
  by (induction cs) (auto simp: is_dir_node_def split: node.splits)

lemma walk_total_count [simp]: "walk_total p r = count_files r"
proof (induction r arbitrary: p)
  case (File b)
  then show ?case by (simp add: walk_total_def)
next
  case (Dir cs)
  then have "walk_total (py_join p n) c = count_files c" if "(n, c) \<in> set cs" for n c
    using that by (auto intro: snds.intros)
  then show ?case by (simp add: walk_total_Dir children_total)
qed

lemma os_walk_in_dom: "os_walk_dom (p, r)"
proof (induction r arbitrary: p)
  case (File b)
  then show ?case by (rule os_walk.domintros)
next
  case (Dir cs)
  then show ?case by (auto intro: os_walk.domintros)
qed

end
