(* ===== verification/Normalizer.thy ===== *)
theory Normalizer
  imports Fs
begin

text \<open>
  The audio normaliser, lines 81--98 of \<^verbatim>\<open>short_audio_transcribe.py\<close>:
  load the file with torchaudio, average the channels into one
  (\<open>wav.mean(dim=0).unsqueeze(0)\<close>), resample to the configured rate when the
  native rate differs, and reject a clip longer than 20 seconds
  (\<open>wav.shape[1] / target_sr > 20\<close>).  A tensor of shape \<open>[C, N]\<close> is the list
  of its \<open>C\<close> channels.  torchaudio's decoder, resampler and encoder are
  external: they are the fields of the record \<open>audio_lib\<close>, any functions at all,
  each free to raise.  Samples are reals (the tensor holds float32; rounding is
  not modelled).  Python's \<open>/\<close> on two ints is the exact quotient here (it is
  correctly rounded in Python, which differs only for rates above \<open>2^48\<close>).
\<close>

type_synonym wave = "real list list"

record audio_lib =
  ta_load :: "bytes \<Rightarrow> py_exc + (wave \<times> int)"
  ta_resample :: "int \<Rightarrow> int \<Rightarrow> wave \<Rightarrow> py_exc + wave"
  ta_save :: "wave \<Rightarrow> int \<Rightarrow> py_exc + bytes"

text \<open>\<open>wav.mean(dim=0).unsqueeze(0)\<close>: one channel, each sample the mean of the
  channels' samples at that time.\<close>

definition mono_mix :: "wave \<Rightarrow> wave" where
  "mono_mix w = [map (\<lambda>col. sum_list col / real (length col)) (transpose w)]"

text \<open>\<open>wav.shape[1]\<close>: the number of samples per channel.\<close>

definition frames :: "wave \<Rightarrow> nat" where
  "frames w = (case w of [] \<Rightarrow> 0 | c # _ \<Rightarrow> length c)"

text \<open>The guard of line 96; a zero rate raises \<open>ZeroDivisionError\<close>.\<close>

definition too_long :: "nat \<Rightarrow> int \<Rightarrow> py_exc + bool" where
  "too_long n t = (if t = 0 then Inl ZeroDivisionError else Inr (real n / real_of_int t > 20))"

datatype norm_result = Accepted wave | TooLongClip

text \<open>\<open>torchaudio.load(wav_path)\<close>, line 82: read the file, decode it.\<close>

definition load_wav :: "audio_lib \<Rightarrow> node \<Rightarrow> name \<Rightarrow> name \<Rightarrow> py_exc + (wave \<times> int)" where
  "load_wav lib r spk f = (case read_file r spk f of Inl e \<Rightarrow> Inl e | Inr b \<Rightarrow> ta_load lib b)"

text \<open>Lines 88--90: resample only when the rates differ.\<close>

definition resample_step :: "audio_lib \<Rightarrow> int \<Rightarrow> int \<Rightarrow> wave \<Rightarrow> py_exc + wave" where
  "resample_step lib sr target w = (if sr \<noteq> target then ta_resample lib sr target w else Inr w)"

definition normalize :: "audio_lib \<Rightarrow> int \<Rightarrow> node \<Rightarrow> name \<Rightarrow> name \<Rightarrow> py_exc + norm_result" where
  "normalize lib target r spk f =
     (case load_wav lib r spk f of
        Inl e \<Rightarrow> Inl e
      | Inr (wav0, sr) \<Rightarrow>
          (case resample_step lib sr target (mono_mix wav0) of
             Inl e \<Rightarrow> Inl e
           | Inr wav \<Rightarrow>
               (case too_long (frames wav) target of
                  Inl e \<Rightarrow> Inl e
                | Inr True \<Rightarrow> Inr TooLongClip
                | Inr False \<Rightarrow> Inr (Accepted wav))))"

text \<open>\<open>torchaudio.save(save_path, wav, target_sr)\<close>, line 102: encode, then write.\<close>

definition save_wav :: "audio_lib \<Rightarrow> node \<Rightarrow> name \<Rightarrow> name \<Rightarrow> wave \<Rightarrow> int \<Rightarrow> py_exc + node" where
  "save_wav lib r spk n w t = (case ta_save lib w t of Inl e \<Rightarrow> Inl e | Inr b \<Rightarrow> write_file r spk n b)"

text \<open>A tensor is rectangular: all channels have the same length.\<close>

definition rect :: "wave \<Rightarrow> bool" where
  "rect w \<longleftrightarrow> (\<forall>c \<in> set w. length c = frames w)"

subsection \<open>The channel mix\<close>

lemma foldr_max_length_const:
  "w \<noteq> [] \<Longrightarrow> \<forall>c \<in> set w. length c = N \<Longrightarrow> foldr (\<lambda>xs. max (length xs)) w 0 = N"
  by (induction w rule: list_nonempty_induct) auto

lemma length_transpose_rect:
  "rect w \<Longrightarrow> w \<noteq> [] \<Longrightarrow> length (transpose w) = frames w"
  by (simp add: length_transpose rect_def foldr_max_length_const)

lemma transpose_rect_nth:
  "rect w \<Longrightarrow> w \<noteq> [] \<Longrightarrow> k < frames w \<Longrightarrow> transpose w ! k = map (\<lambda>c. c ! k) w"
proof -
  assume r: "rect w" and ne: "w \<noteq> []" and k: "k < frames w"
  then have "filter (\<lambda>ys. k < length ys) w = w"
    by (auto simp: rect_def)
  with r ne k show ?thesis
    by (simp add: nth_transpose length_transpose_rect)
qed

text \<open>C6: the mix of a rectangular tensor has one channel, as many samples as the
  input, and at each time the mean of the channels.\<close>

theorem mono_mix_rect:
  assumes "rect w" and "w \<noteq> []"
  shows "length (mono_mix w) = 1 \<and> frames (mono_mix w) = frames w \<and>
         (\<forall>k < frames w. mono_mix w ! 0 ! k = sum_list (map (\<lambda>c. c ! k) w) / real (length w))"
  using assms by (simp add: mono_mix_def frames_def length_transpose_rect transpose_rect_nth)

lemma transpose_single: "transpose [xs] = map (\<lambda>x. [x]) xs"
  by (induction xs) simp_all

text \<open>A mono clip passes through the mix unchanged.\<close>

lemma mono_mix_single [simp]: "mono_mix [xs] = [xs]"
  by (simp add: mono_mix_def transpose_single comp_def)

subsection \<open>The length guard\<close>

text \<open>For a positive rate the guard is integer arithmetic: more than
  \<open>20 * target_sr\<close> samples.\<close>

lemma too_long_pos: "0 < t \<Longrightarrow> too_long n t = Inr (20 * t < int n)"
proof -
  assume t: "0 < t"
  then have "(real n / real_of_int t > 20) \<longleftrightarrow> 20 * real_of_int t < real n"
    by (simp add: pos_less_divide_eq mult.commute)
  also have "\<dots> \<longleftrightarrow> 20 * t < int n"
    by (metis of_int_less_iff of_int_mult of_int_numeral of_int_of_nat_eq)
  finally show ?thesis using t by (simp add: too_long_def)
qed

text \<open>A negative rate makes every duration negative: the guard never fires.\<close>

lemma too_long_neg: "t < 0 \<Longrightarrow> too_long n t = Inr False"
proof -
  assume t: "t < 0"
  then have "real n / real_of_int t \<le> 0"
    by (simp add: divide_nonneg_neg)
  with t show ?thesis by (simp add: too_long_def)
qed

subsection \<open>What the normaliser returns\<close>

text \<open>An accepted clip is the mono mix, resampled exactly when the native rate
  differs from the target, and passed the guard of line 96.\<close>

lemma normalize_Accepted:
  "normalize lib t r spk f = Inr (Accepted w) \<longleftrightarrow>
     (\<exists>wav0 sr. load_wav lib r spk f = Inr (wav0, sr) \<and>
        resample_step lib sr t (mono_mix wav0) = Inr w \<and> too_long (frames w) t = Inr False)"
  by (auto simp: normalize_def split: sum.splits bool.splits)

lemma normalize_TooLong:
  "normalize lib t r spk f = Inr TooLongClip \<longleftrightarrow>
     (\<exists>wav0 sr w. load_wav lib r spk f = Inr (wav0, sr) \<and>
        resample_step lib sr t (mono_mix wav0) = Inr w \<and> too_long (frames w) t = Inr True)"
  by (auto simp: normalize_def split: sum.splits bool.splits)

text \<open>C5: an accepted clip has at most \<open>20 * target_sr\<close> samples, for a positive
  target rate.\<close>

theorem normalize_accepted_bound:
  "0 < t \<Longrightarrow> normalize al t r spk f = Inr (Accepted w) \<Longrightarrow> int (frames w) \<le> 20 * t"
  by (auto simp: normalize_Accepted too_long_pos)

text \<open>C22: with a negative target rate every duration is negative, and the
  too-long guard never rejects a clip.\<close>

theorem normalize_neg_rate: "t < 0 \<Longrightarrow> normalize al t r spk f \<noteq> Inr TooLongClip"
  by (simp add: normalize_TooLong too_long_neg)

subsection \<open>Locality\<close>

lemma load_wav_cong:
  "lookup2 r spk f = lookup2 r' spk f \<Longrightarrow> load_wav lib r spk f = load_wav lib r' spk f"
  by (simp add: load_wav_def read_file_cong [of r spk f r'])

lemma normalize_cong:
  "lookup2 r spk f = lookup2 r' spk f \<Longrightarrow> normalize lib t r spk f = normalize lib t r' spk f"
  by (simp add: normalize_def load_wav_cong [of r spk f r'])

end
