(* ===== verification/Transcriber.thy ===== *)
theory Transcriber
  imports Fs
begin

text \<open>
  \<open>transcribe_one(audio_path)\<close>, lines 17--33 of
  \<^verbatim>\<open>short_audio_transcribe.py\<close>.  The whisper model is external: the record
  \<open>asr_model\<close> holds its operations (\<open>whisper.load_audio\<close> after the file is
  read, \<open>pad_or_trim\<close>, \<open>log_mel_spectrogram\<close>, \<open>model.detect_language\<close>,
  \<open>whisper.decode\<close>), any functions at all, each of the fallible ones free to
  raise.  The model handle is passed in, as the one global \<open>model\<close> of the
  script is.  The code calls the detector and throws its answer away: the language
  is fixed to \<open>''ko''\<close> before decoding.  The \<open>print(result.text)\<close> of line 32
  is the \<open>Transcript\<close> message the caller emits (\<open>Walker\<close>).
\<close>

type_synonym mel = "real list list"

record decoding_options =
  beam_size :: nat
  language :: string

record asr_model =
  load_audio :: "bytes \<Rightarrow> py_exc + real list"
  pad_or_trim :: "real list \<Rightarrow> real list"
  log_mel_spectrogram :: "real list \<Rightarrow> mel"
  detect_language :: "mel \<Rightarrow> py_exc + (string \<times> real) list"
  decode :: "mel \<Rightarrow> decoding_options \<Rightarrow> py_exc + string"

text \<open>Lines 18--33 once the file's bytes are read: decode the audio, pad or trim
  it to 30 seconds, compute the spectrogram, run the detector, force the
  language, decode.\<close>

definition whisper_on_bytes :: "asr_model \<Rightarrow> bytes \<Rightarrow> py_exc + (string \<times> string)" where
  "whisper_on_bytes model b =
     (case load_audio model b of
        Inl e \<Rightarrow> Inl e
      | Inr audio0 \<Rightarrow>
          (let audio = pad_or_trim model audio0;
               mel = log_mel_spectrogram model audio
           in case detect_language model mel of
                Inl e \<Rightarrow> Inl e
              | Inr _ \<Rightarrow>
                  (let lang = ''ko'';
                       options = \<lparr>beam_size = 5, language = lang\<rparr>
                   in case decode model mel options of
                        Inl e \<Rightarrow> Inl e
                      | Inr text \<Rightarrow> Inr (lang, text))))"

text \<open>\<open>whisper.load_audio(audio_path)\<close> reads the file first.\<close>

definition transcribe_one :: "asr_model \<Rightarrow> node \<Rightarrow> name \<Rightarrow> name \<Rightarrow> py_exc + (string \<times> string)" where
  "transcribe_one model r spk f =
     (case read_file r spk f of Inl e \<Rightarrow> Inl e | Inr b \<Rightarrow> whisper_on_bytes model b)"

subsection \<open>Behaviour\<close>

text \<open>C14: on success the file was read and decoded, the detector answered, and the
  decoder ran on the same spectrogram with beam size 5 and language \<open>''ko''\<close>.\<close>

theorem transcribe_one_Inr:
  "transcribe_one m r spk f = Inr (lang, text) \<longleftrightarrow>
     lang = ''ko'' \<and>
     (\<exists>b a p. read_file r spk f = Inr b \<and> load_audio m b = Inr a \<and>
        detect_language m (log_mel_spectrogram m (pad_or_trim m a)) = Inr p \<and>
        decode m (log_mel_spectrogram m (pad_or_trim m a)) \<lparr>beam_size = 5, language = ''ko''\<rparr> = Inr text)"
  by (auto simp: transcribe_one_def whisper_on_bytes_def Let_def split: sum.splits)

text \<open>Only whether the detector fails, and with which exception, reaches the result.\<close>

lemma whisper_on_bytes_detect:
  assumes h: "\<forall>x. map_sum id (\<lambda>_. ()) (g x) = map_sum id (\<lambda>_. ()) (detect_language m x)"
  shows "whisper_on_bytes (m\<lparr>detect_language := g\<rparr>) b = whisper_on_bytes m b"
proof (cases "load_audio m b")
  case (Inl e)
  then show ?thesis by (simp add: whisper_on_bytes_def)
next
  case (Inr a)
  let ?mel = "log_mel_spectrogram m (pad_or_trim m a)"
  from h have "map_sum id (\<lambda>_. ()) (g ?mel) = map_sum id (\<lambda>_. ()) (detect_language m ?mel)"
    by blast
  with Inr show ?thesis
    by (cases "g ?mel"; cases "detect_language m ?mel") (simp_all add: whisper_on_bytes_def Let_def)
qed

text \<open>C15: what the detector reports has no influence: replacing it by any
  detector that fails exactly when it fails, with the same exception, leaves the
  result unchanged.\<close>

theorem whisper_detect_irrelevant:
  assumes h: "\<forall>x. map_sum id (\<lambda>_. ()) (g x) = map_sum id (\<lambda>_. ()) (detect_language m x)"
  shows "transcribe_one (m\<lparr>detect_language := g\<rparr>) r spk f = transcribe_one m r spk f"
  using whisper_on_bytes_detect [OF h]
  unfolding transcribe_one_def by (cases "read_file r spk f") simp_all

lemma transcribe_one_File:
  "lookup2 r spk f = Some (File b) \<Longrightarrow> transcribe_one m r spk f = whisper_on_bytes m b"
  by (simp add: transcribe_one_def read_file_def)

text \<open>Transcribing the file just written transcribes the bytes written.\<close>

lemma transcribe_after_write:
  "write_file r spk n b = Inr r' \<Longrightarrow> transcribe_one m r' spk n = whisper_on_bytes m b"
  by (simp add: transcribe_one_File lookup2_write_same)

end
