(* ===== verification/Walker.thy ===== *)
theory Walker
  imports Language Normalizer Transcriber
begin

text \<open>
  The corpus walker, lines 71--120 of \<^verbatim>\<open>short_audio_transcribe.py\<close>: the two
  nested \<open>for\<close> loops over the speakers and the files of each speaker, the
  name filter of line 77 (the idempotence guard), and the \<open>try\<close>/\<open>except\<close>
  around each file's pipeline (the failure-isolation wrapper).  The loop state is
  the record \<open>run_state\<close>: the corpus tree (written by \<open>torchaudio.save\<close>),
  \<open>speaker_annos\<close>, \<open>processed_files\<close>, and what the script prints, in order.
  The loop constants (the two libraries, \<open>lang2token\<close>, \<open>target_sr\<close>,
  \<open>total_files\<close>, \<open>parent_dir\<close>) are the record \<open>ctx\<close>.  The lemmas give
  each file's contribution against the contract \<open>file_anno\<close> (with the step
  relation \<open>writes_in\<close> for what the loop writes), the counter and progress
  invariants, the distinctness of records, the accounting of outcome lines per
  candidate file (\<open>outcome\<close>, \<open>candidates\<close>), the printed lines split into
  one admissible trace per candidate file in listing order (\<open>file_trace\<close>),
  the bound of records by the file count, and that the model is reached only
  through \<open>transcribe_one\<close>; that each record's file survives the rest of the
  run, that every candidate file is handled, and that writing outputs
  (\<open>outputs_written\<close>) leaves every file's contribution unchanged.
\<close>

datatype msg =
    SpeakerNames "name list"
  | TotalFiles nat
  | Transcript string
  | SkipTooLong name
  | Unsupported string name
  | Progress nat nat
  | FileError name py_exc
  | NoValidFiles

record ctx =
  lib :: audio_lib
  model :: asr_model
  lang2token :: token_map
  target_sr :: int
  total_files :: nat
  parent_dir :: path

record run_state =
  root :: node
  speaker_annos :: "string list"
  processed_files :: nat
  out :: "msg list"

text \<open>Line 77: not a \<open>.wav\<close> file, or an output of an earlier run.\<close>

definition skip_name :: "name \<Rightarrow> bool" where
  "skip_name f \<longleftrightarrow> \<not> endswith f ''.wav'' \<or> startswith f ''processed_''"

text \<open>Line 101: \<open>f"processed_{i}.wav"\<close>.\<close>

definition save_name :: "nat \<Rightarrow> name" where
  "save_name i = ''processed_'' @ nat_str i @ ''.wav''"

text \<open>Line 112: \<open>f"{lang2token[lang]}{text}{lang2token[lang]}\n"\<close>.\<close>

definition tag_text :: "string \<Rightarrow> string \<Rightarrow> string" where
  "tag_text tok text = tok @ text @ tok @ ''\<newline>''"

text \<open>Line 113: \<open>f"{save_path}|{speaker}|{text}"\<close>.\<close>

definition anno_line :: "path \<Rightarrow> name \<Rightarrow> string \<Rightarrow> string" where
  "anno_line save_path spk text = save_path @ ''|'' @ spk @ ''|'' @ text"

definition emit :: "msg \<Rightarrow> run_state \<Rightarrow> run_state" where
  "emit m s = s\<lparr>out := out s @ [m]\<rparr>"

text \<open>
  One iteration of the inner loop (lines 77--119).  Every exception of the
  \<open>try\<close> body becomes a \<open>FileError\<close> message and the loop goes on; what the body
  changed before raising stays changed (a file written by line 102 before
  transcription fails remains on disk).
\<close>

definition process_file :: "ctx \<Rightarrow> name \<Rightarrow> nat \<Rightarrow> name \<Rightarrow> run_state \<Rightarrow> run_state" where
  "process_file c spk i f s =
     (if skip_name f then s
      else
        let speaker_path = py_join (parent_dir c) spk in
        case normalize (lib c) (target_sr c) (root s) spk f of
          Inl e \<Rightarrow> emit (FileError f e) s
        | Inr TooLongClip \<Rightarrow> emit (SkipTooLong f) s
        | Inr (Accepted wav) \<Rightarrow>
            (let save_path = py_join speaker_path (save_name i) in
             case save_wav (lib c) (root s) spk (save_name i) wav (target_sr c) of
               Inl e \<Rightarrow> emit (FileError f e) s
             | Inr r' \<Rightarrow>
                 (let s1 = s\<lparr>root := r'\<rparr> in
                  case transcribe_one (model c) r' spk (save_name i) of
                    Inl e \<Rightarrow> emit (FileError f e) s1
                  | Inr (lang, text) \<Rightarrow>
                      (let s2 = emit (Transcript text) s1 in
                       case map_of (lang2token c) lang of
                         None \<Rightarrow> emit (Unsupported lang f) s2
                       | Some tok \<Rightarrow>
                           (let s3 = s2\<lparr>speaker_annos := speaker_annos s2 @
                                          [anno_line save_path spk (tag_text tok text)],
                                        processed_files := Suc (processed_files s2)\<rparr>
                            in emit (Progress (processed_files s3) (total_files c)) s3)))))"

text \<open>The inner loop, \<open>for i, wavfile in enumerate(os.listdir(speaker_path))\<close>.\<close>

fun process_files :: "ctx \<Rightarrow> name \<Rightarrow> nat \<Rightarrow> name list \<Rightarrow> run_state \<Rightarrow> run_state" where
  "process_files c spk i [] s = s"
| "process_files c spk i (f # fs) s = process_files c spk (Suc i) fs (process_file c spk i f s)"

text \<open>Line 76 lists the speaker directory when its turn comes.\<close>

definition speaker_listing :: "node \<Rightarrow> name \<Rightarrow> name list" where
  "speaker_listing r spk = (case child r spk of Some d \<Rightarrow> dir_entries d | None \<Rightarrow> [])"

definition process_speaker :: "ctx \<Rightarrow> name \<Rightarrow> run_state \<Rightarrow> run_state" where
  "process_speaker c spk s = process_files c spk 0 (speaker_listing (root s) spk) s"

text \<open>The outer loop, \<open>for speaker in speaker_names\<close>.\<close>

fun process_speakers :: "ctx \<Rightarrow> name list \<Rightarrow> run_state \<Rightarrow> run_state" where
  "process_speakers c [] s = s"
| "process_speakers c (spk # spks) s = process_speakers c spks (process_speaker c spk s)"

subsection \<open>What one file contributes\<close>

text \<open>
  The contract of one iteration, without the filesystem effects: the annotation
  line a file yields, as a function of the corpus before the iteration.  A line
  is produced exactly when the name passes the filter, the clip loads, mixes,
  resamples and is at most 20 seconds long, it can be encoded and written, the
  recogniser returns, and its language has a token.
\<close>

definition file_anno :: "ctx \<Rightarrow> name \<Rightarrow> nat \<Rightarrow> name \<Rightarrow> node \<Rightarrow> string list" where
  "file_anno c spk i f r =
     (if skip_name f then []
      else case normalize (lib c) (target_sr c) r spk f of
        Inr (Accepted wav) \<Rightarrow>
          (case ta_save (lib c) wav (target_sr c) of
             Inr b \<Rightarrow>
               (if writable r spk (save_name i) then
                  (case whisper_on_bytes (model c) b of
                     Inr (lang, text) \<Rightarrow>
                       (case map_of (lang2token c) lang of
                          Some tok \<Rightarrow>
                            [anno_line (py_join (py_join (parent_dir c) spk) (save_name i)) spk
                               (tag_text tok text)]
                        | None \<Rightarrow> [])
                   | Inl _ \<Rightarrow> [])
                else [])
           | Inl _ \<Rightarrow> [])
      | _ \<Rightarrow> [])"

text \<open>What a whole run yields, as a pure function of the corpus at its start.\<close>

definition speaker_block :: "ctx \<Rightarrow> node \<Rightarrow> name \<Rightarrow> string list" where
  "speaker_block c r spk =
     concat (map (\<lambda>(j, f). file_anno c spk j f r) (enumerate 0 (speaker_listing r spk)))"

definition corpus_annos :: "ctx \<Rightarrow> node \<Rightarrow> name list \<Rightarrow> string list" where
  "corpus_annos c r spks = concat (map (speaker_block c r) spks)"

definition counter_ok :: "run_state \<Rightarrow> bool" where
  "counter_ok s \<longleftrightarrow> processed_files s = length (speaker_annos s)"

text \<open>A directory entry name as \<open>os.listdir\<close> returns it.\<close>

definition valid_name :: "name \<Rightarrow> bool" where
  "valid_name n \<longleftrightarrow> n \<noteq> [] \<and> CHR ''/'' \<notin> set n"

definition dir_prefix :: "path \<Rightarrow> path" where
  "dir_prefix p = (if p = [] \<or> last p = CHR ''/'' then p else p @ ''/'')"

text \<open>The trees a speaker's loop can leave behind: the start tree with output
  files written into that speaker's directory.\<close>

inductive writes_in :: "name \<Rightarrow> node \<Rightarrow> node \<Rightarrow> bool" where
  writes_refl: "writes_in spk r r"
| writes_step: "writes_in spk r r1 \<Longrightarrow> write_file r1 spk (save_name j) b = Inr r2 \<Longrightarrow> writes_in spk r r2"

text \<open>The progress lines \<open>Processed: k/total\<close> printed so far.\<close>

definition progress_msgs :: "msg list \<Rightarrow> (nat \<times> nat) list" where
  "progress_msgs ms = [(k, t). Progress k t \<leftarrow> ms]"

definition progress_ok :: "nat \<Rightarrow> run_state \<Rightarrow> bool" where
  "progress_ok t s \<longleftrightarrow> progress_msgs (out s) = map (\<lambda>k. (k, t)) [1..<Suc (processed_files s)]"

text \<open>The lines that close the processing of one file, and the candidate names
  of a listing.\<close>

fun outcome :: "msg \<Rightarrow> bool" where
  "outcome (SkipTooLong _) = True"
| "outcome (FileError _ _) = True"
| "outcome (Unsupported _ _) = True"
| "outcome (Progress _ _) = True"
| "outcome _ = False"

definition outcomes :: "run_state \<Rightarrow> nat" where
  "outcomes s = length (filter outcome (out s))"

definition candidates :: "name list \<Rightarrow> nat" where
  "candidates fs = length (filter (\<lambda>f. \<not> skip_name f) fs)"

text \<open>The lines one candidate file prints, in order: a caught error, the too-long
  notice, or the transcript (line 31) followed by the unsupported-language line
  or by the progress line with the counter advanced by one.\<close>

fun file_trace :: "name \<Rightarrow> nat \<Rightarrow> nat \<Rightarrow> msg list \<Rightarrow> bool" where
  "file_trace f k n [FileError g e] = (g = f)"
| "file_trace f k n [SkipTooLong g] = (g = f)"
| "file_trace f k n [Transcript t, Unsupported l g] = (g = f)"
| "file_trace f k n [Transcript t, Progress k' n'] = (k' = Suc k \<and> n' = n)"
| "file_trace f k n _ = False"

text \<open>A record as line 113 writes it, and the file its path names holding bytes
  whose transcription is the record's text.\<close>

abbreviation backed :: "ctx \<Rightarrow> node \<Rightarrow> name \<Rightarrow> nat \<Rightarrow> string \<Rightarrow> bool" where
  "backed c r sp j tr \<equiv>
     \<exists>b. lookup2 r sp (save_name j) = Some (File b) \<and> whisper_on_bytes (model c) b = Inr (''ko'', tr)"

abbreviation rec_at :: "ctx \<Rightarrow> name \<Rightarrow> nat \<Rightarrow> string \<Rightarrow> string \<Rightarrow> string" where
  "rec_at c sp j tok tr \<equiv> anno_line (py_join (py_join (parent_dir c) sp) (save_name j)) sp (tag_text tok tr)"

text \<open>A candidate file is handled once the run holds its record or a printed
  line that names it; the records and the printed lines only grow.\<close>

abbreviation handled :: "path \<Rightarrow> name \<Rightarrow> nat \<Rightarrow> name \<Rightarrow> run_state \<Rightarrow> bool" where
  "handled pd spk i f s \<equiv>
     (\<exists>tok tr. anno_line (py_join (py_join pd spk) (save_name i)) spk (tag_text tok tr) \<in> set (speaker_annos s)) \<or>
     (\<exists>e. FileError f e \<in> set (out s)) \<or> SkipTooLong f \<in> set (out s) \<or> (\<exists>l. Unsupported l f \<in> set (out s))"

definition grows :: "run_state \<Rightarrow> run_state \<Rightarrow> bool" where
  "grows s s' \<longleftrightarrow> set (speaker_annos s) \<subseteq> set (speaker_annos s') \<and> set (out s) \<subseteq> set (out s')"

text \<open>Trees reachable from a corpus by writes of output names into any speaker
  directory: what a run, completed or killed at any point, leaves behind.\<close>

inductive outputs_written :: "node \<Rightarrow> node \<Rightarrow> bool" where
  ow_refl: "outputs_written r r"
| ow_step: "outputs_written r r1 \<Longrightarrow> write_file r1 spk (save_name j) b = Inr r2 \<Longrightarrow> outputs_written r r2"

text \<open>The entries of a listing the name filter lets through, with the index
  \<open>enumerate\<close> gives them: all a speaker's block depends on of the order.\<close>

definition originals :: "name list \<Rightarrow> (nat \<times> name) list" where
  "originals fs = [(j, f) \<leftarrow> enumerate 0 fs. \<not> skip_name f]"

lemmas process_file_unfold [pipeline_simps] =
  process_file_def file_anno_def save_wav_def emit_def Let_def

subsection \<open>The filter\<close>

lemma process_file_skip: "skip_name f \<Longrightarrow> process_file c spk i f s = s"
  by (simp add: process_file_def)

lemma save_name_processed [name_lemmas]: "startswith (save_name i) ''processed_''"
  unfolding save_name_def by (rule startswith_append)

lemma save_name_skipped [name_lemmas]: "skip_name (save_name i)"
  by (simp add: skip_name_def save_name_processed)

lemma save_name_not_source [name_lemmas]: "\<not> skip_name f \<Longrightarrow> f \<noteq> save_name i"
  using save_name_skipped by auto

lemma save_name_inj [name_lemmas]: "save_name i = save_name j \<longleftrightarrow> i = j"
  by (simp add: save_name_def nat_str_inj)

subsection \<open>One iteration refines its contract\<close>

lemma process_file_annos:
  "speaker_annos (process_file c spk i f s) = speaker_annos s @ file_anno c spk i f (root s)"
  by (auto simp: pipeline_simps transcribe_after_write
           dest: write_file_Inl_writable write_file_Inr_writable
           split: sum.splits norm_result.splits option.splits prod.splits)

lemma process_file_root:
  "root (process_file c spk i f s) = root s \<or>
   (\<exists>b. write_file (root s) spk (save_name i) b = Inr (root (process_file c spk i f s)))"
  by (auto simp: pipeline_simps split: sum.splits norm_result.splits option.splits prod.splits)

lemma process_file_counter:
  "processed_files s = length (speaker_annos s) \<Longrightarrow>
   processed_files (process_file c spk i f s) = length (speaker_annos (process_file c spk i f s))"
  by (auto simp: pipeline_simps split: sum.splits norm_result.splits option.splits prod.splits)

text \<open>A file's contribution depends on the corpus only through its speaker's directory.\<close>

lemma file_anno_cong:
  assumes l: "lookup2 r spk f = lookup2 r' spk f"
    and w: "writable r spk (save_name i) = writable r' spk (save_name i)"
  shows "file_anno c spk i f r = file_anno c spk i f r'"
proof -
  from l have "normalize (lib c) (target_sr c) r spk f = normalize (lib c) (target_sr c) r' spk f"
    by (rule normalize_cong)
  then show ?thesis unfolding file_anno_def by (simp only: w)
qed

lemma file_anno_child_cong:
  "child r spk = child r' spk \<Longrightarrow> file_anno c spk i f r = file_anno c spk i f r'"
  by (rule file_anno_cong) (simp_all add: lookup2_def writable_def)

text \<open>Writing an output file of index \<open>i\<close> changes the contribution of no
  other index of the same speaker.\<close>

lemma file_anno_write_same_spk:
  assumes w: "write_file r spk (save_name i) b = Inr r'" and ji: "j \<noteq> i"
  shows "file_anno c spk j f r' = file_anno c spk j f r"
proof (cases "skip_name f")
  case True
  then show ?thesis by (simp add: file_anno_def)
next
  case False
  then have "f \<noteq> save_name i" by (rule save_name_not_source)
  with w have l: "lookup2 r' spk f = lookup2 r spk f"
    by (simp add: lookup2_write_other)
  from ji w have "lookup2 r' spk (save_name j) = lookup2 r spk (save_name j)"
    by (simp add: lookup2_write_other save_name_inj)
  with w have "writable r' spk (save_name j) = writable r spk (save_name j)"
    by (simp add: writable_def child_write_dir)
  with l show ?thesis by (rule file_anno_cong)
qed

lemma writes_in_trans: "writes_in spk r2 r3 \<Longrightarrow> writes_in spk r1 r2 \<Longrightarrow> writes_in spk r1 r3"
  by (induction rule: writes_in.induct) (auto intro: writes_in.intros)

lemma writes_in_other_child: "writes_in spk r r' \<Longrightarrow> spk' \<noteq> spk \<Longrightarrow> child r' spk' = child r spk'"
  by (induction rule: writes_in.induct) (auto simp: child_write_other)

lemma writes_in_process_file: "writes_in spk (root s) (root (process_file c spk i f s))"
  using process_file_root [of c spk i f s] by (auto intro: writes_in.intros)

lemma writes_in_process_files: "writes_in spk (root s) (root (process_files c spk i fs s))"
proof (induction fs arbitrary: i s)
  case Nil
  then show ?case by (simp add: writes_refl)
next
  case (Cons f fs)
  then show ?case
    using writes_in_trans writes_in_process_file by fastforce
qed

lemma file_anno_process_file:
  "j \<noteq> i \<Longrightarrow> file_anno c spk j g (root (process_file c spk i f s)) = file_anno c spk j g (root s)"
  using process_file_root [of c spk i f s] file_anno_write_same_spk by metis

text \<open>The inner loop yields, in listing order, what each file contributes on
  the tree as it was when the loop started: the writes of earlier files never
  change what later files yield.\<close>

lemma process_files_annos:
  "speaker_annos (process_files c spk i fs s) =
     speaker_annos s @ concat (map (\<lambda>(j, f). file_anno c spk j f (root s)) (enumerate i fs))"
proof (induction fs arbitrary: i s)
  case Nil
  then show ?case by simp
next
  case (Cons f fs)
  let ?s1 = "process_file c spk i f s"
  have "map (\<lambda>(j, g). file_anno c spk j g (root ?s1)) (enumerate (Suc i) fs) =
        map (\<lambda>(j, g). file_anno c spk j g (root s)) (enumerate (Suc i) fs)"
    by (rule map_cong) (auto simp: in_set_enumerate_eq file_anno_process_file)
  with Cons.IH [of "Suc i" ?s1] show ?case
    by (simp add: process_file_annos)
qed

lemma process_speaker_annos:
  "speaker_annos (process_speaker c spk s) = speaker_annos s @ speaker_block c (root s) spk"
  by (simp add: process_speaker_def speaker_block_def process_files_annos)

lemma speaker_block_child_cong:
  "child r spk = child r' spk \<Longrightarrow> speaker_block c r spk = speaker_block c r' spk"
proof -
  assume ch: "child r spk = child r' spk"
  then have "speaker_listing r spk = speaker_listing r' spk"
    by (simp add: speaker_listing_def)
  moreover from ch have "file_anno c spk j f r = file_anno c spk j f r'" for j f
    by (rule file_anno_child_cong)
  ultimately show ?thesis by (simp add: speaker_block_def)
qed

lemma process_speakers_annos:
  "distinct spks \<Longrightarrow>
   speaker_annos (process_speakers c spks s) = speaker_annos s @ corpus_annos c (root s) spks"
proof (induction spks arbitrary: s)
  case Nil
  then show ?case by (simp add: corpus_annos_def)
next
  case (Cons spk spks)
  let ?s1 = "process_speaker c spk s"
  have w: "writes_in spk (root s) (root ?s1)"
    by (simp add: process_speaker_def writes_in_process_files)
  have "map (speaker_block c (root ?s1)) spks = map (speaker_block c (root s)) spks"
  proof (rule map_cong)
    fix spk' assume "spk' \<in> set spks"
    with Cons.prems have "spk' \<noteq> spk" by auto
    with w have "child (root ?s1) spk' = child (root s) spk'"
      by (rule writes_in_other_child)
    then show "speaker_block c (root ?s1) spk' = speaker_block c (root s) spk'"
      by (rule speaker_block_child_cong)
  qed simp
  with Cons.IH [of ?s1] Cons.prems show ?case
    by (simp add: corpus_annos_def process_speaker_annos del: map_eq_conv)
qed

subsection \<open>The progress counter\<close>

lemma counter_ok_process_file: "counter_ok s \<Longrightarrow> counter_ok (process_file c spk i f s)"
  unfolding counter_ok_def by (rule process_file_counter)

lemma counter_ok_process_files: "counter_ok s \<Longrightarrow> counter_ok (process_files c spk i fs s)"
  by (induction fs arbitrary: i s) (simp_all add: counter_ok_process_file)

lemma counter_ok_process_speakers: "counter_ok s \<Longrightarrow> counter_ok (process_speakers c spks s)"
  by (induction spks arbitrary: s) (simp_all add: process_speaker_def counter_ok_process_files)


lemma whisper_on_bytes_lang: "whisper_on_bytes m b = Inr (lang, text) \<Longrightarrow> lang = ''ko''"
  by (auto simp: whisper_on_bytes_def Let_def split: sum.splits)

lemma file_anno_shape:
  "file_anno c spk i f r = [] \<or>
   (\<exists>b lang tr tok. whisper_on_bytes (model c) b = Inr (lang, tr) \<and> map_of (lang2token c) lang = Some tok \<and>
      file_anno c spk i f r = [anno_line (py_join (py_join (parent_dir c) spk) (save_name i)) spk (tag_text tok tr)])"
  unfolding file_anno_def
  by (auto split: sum.splits norm_result.splits option.splits)

lemma file_anno_token:
  "x \<in> set (file_anno c spk i f r) \<Longrightarrow>
   \<exists>p tok text. map_of (lang2token c) ''ko'' = Some tok \<and> x = anno_line p spk (tag_text tok text)"
  using file_anno_shape [of c spk i f r] whisper_on_bytes_lang by fastforce

subsection \<open>When a file yields a record\<close>

text \<open>C2: one iteration of the loop appends an annotation exactly when the file
  name passes the filter of line 77, the clip loads, its mono mix resamples, the
  result is at most 20 seconds long, it is encoded and written as
  \<open>processed_i.wav\<close>, the recogniser returns (always with language
  \<open>''ko''\<close>), and \<open>''ko''\<close> has a token in the selected map.\<close>

theorem process_file_record_iff:
  "speaker_annos (process_file c spk i f s) \<noteq> speaker_annos s \<longleftrightarrow>
     \<not> skip_name f \<and> map_of (lang2token c) ''ko'' \<noteq> None \<and>
     (\<exists>wav0 sr wav b text.
        load_wav (lib c) (root s) spk f = Inr (wav0, sr) \<and>
        resample_step (lib c) sr (target_sr c) (mono_mix wav0) = Inr wav \<and>
        too_long (frames wav) (target_sr c) = Inr False \<and>
        ta_save (lib c) wav (target_sr c) = Inr b \<and> writable (root s) spk (save_name i) \<and>
        whisper_on_bytes (model c) b = Inr (''ko'', text))"
proof -
  have "speaker_annos (process_file c spk i f s) \<noteq> speaker_annos s \<longleftrightarrow> file_anno c spk i f (root s) \<noteq> []"
    by (simp add: process_file_annos)
  also have "\<dots> \<longleftrightarrow> \<not> skip_name f \<and> map_of (lang2token c) ''ko'' \<noteq> None \<and>
     (\<exists>wav b text. normalize (lib c) (target_sr c) (root s) spk f = Inr (Accepted wav) \<and>
        ta_save (lib c) wav (target_sr c) = Inr b \<and> writable (root s) spk (save_name i) \<and>
        whisper_on_bytes (model c) b = Inr (''ko'', text))"
    by (auto simp: file_anno_def dest: whisper_on_bytes_lang
             split: if_splits sum.splits norm_result.splits option.splits prod.splits)
  finally show ?thesis by (auto simp: normalize_Accepted)
qed

text \<open>C4: a clip longer than 20 seconds after resampling (for a positive target
  rate) is skipped with a message: no file is written, no record is added, the
  counter does not move.\<close>

theorem process_file_too_long:
  assumes "\<not> skip_name f"
    and "load_wav (lib c) (root s) spk f = Inr (wav0, sr)"
    and "resample_step (lib c) sr (target_sr c) (mono_mix wav0) = Inr wav"
    and "0 < target_sr c" and "20 * target_sr c < int (frames wav)"
  shows "process_file c spk i f s = emit (SkipTooLong f) s"
proof -
  from assms(4,5) have "too_long (frames wav) (target_sr c) = Inr True"
    by (simp add: too_long_pos)
  with assms(2,3) have "normalize (lib c) (target_sr c) (root s) spk f = Inr TooLongClip"
    by (auto simp: normalize_TooLong)
  with assms(1) show ?thesis by (simp add: process_file_def)
qed

text \<open>C7: every file the pipeline writes (\<open>processed_i.wav\<close>) is one the
  filter of line 77 skips: an output of one run never enters the pipeline of a
  later run, whatever its index.\<close>

theorem process_file_output_skipped: "process_file c spk j (save_name i) s = s"
  by (rule process_file_skip) (rule save_name_skipped)

text \<open>C16: with a configured target rate of 0, a clip that loads and resamples
  reaches the duration check of line 96, whose division \<open>len / target_sr\<close>
  raises \<open>ZeroDivisionError\<close>; the handler of line 118 prints it and the file
  yields nothing.\<close>

theorem process_file_zero_rate:
  assumes "target_sr c = 0" and "\<not> skip_name f"
    and "load_wav (lib c) (root s) spk f = Inr (wav0, sr)"
    and "resample_step (lib c) sr 0 (mono_mix wav0) = Inr wav"
  shows "process_file c spk i f s = emit (FileError f ZeroDivisionError) s"
  using assms by (simp add: process_file_def normalize_def too_long_def)

subsection \<open>Annotation lines are told apart by speaker and index\<close>

lemma save_name_not_abs: "\<not> startswith (save_name i) ''/''"
  by (simp add: save_name_def startswith_def)

lemma save_path_shape:
  "valid_name spk \<Longrightarrow> py_join (py_join p spk) (save_name i) = dir_prefix p @ spk @ CHR ''/'' # save_name i"
proof -
  assume v: "valid_name spk"
  then have ns: "\<not> startswith spk ''/''"
    by (cases spk) (auto simp: valid_name_def startswith_def)
  have j1: "py_join p spk = dir_prefix p @ spk"
    using ns by (simp add: py_join_def dir_prefix_def)
  from v have "last (dir_prefix p @ spk) \<noteq> CHR ''/''"
    by (auto simp: valid_name_def dest: last_in_set)
  with v j1 show ?thesis
    by (simp add: py_join_def save_name_not_abs valid_name_def)
qed

lemma dot_not_digit: "\<not> is_digit CHR ''.''"
  by (simp add: is_digit_def)

lemma anno_key_inj:
  assumes v: "valid_name spk" and v': "valid_name spk'"
    and eq: "anno_line (py_join (py_join p spk) (save_name i)) spk t =
             anno_line (py_join (py_join p spk') (save_name i')) spk' t'"
  shows "spk = spk' \<and> i = i'"
proof -
  from eq v v' have "spk @ CHR ''/'' # (save_name i @ ''|'' @ spk @ ''|'' @ t) =
                     spk' @ CHR ''/'' # (save_name i' @ ''|'' @ spk' @ ''|'' @ t')"
    by (simp add: anno_line_def save_path_shape)
  then have "spk = spk' \<and> save_name i @ ''|'' @ spk @ ''|'' @ t = save_name i' @ ''|'' @ spk' @ ''|'' @ t'"
    using v v' append_sep_eq [of "CHR ''/''" spk spk'] unfolding valid_name_def by blast
  then have s: "spk = spk'" and r: "save_name i @ ''|'' @ spk @ ''|'' @ t = save_name i' @ ''|'' @ spk' @ ''|'' @ t'"
    by blast+
  from r have "nat_str i @ CHR ''.'' # (''wav|'' @ spk @ ''|'' @ t) = nat_str i' @ CHR ''.'' # (''wav|'' @ spk' @ ''|'' @ t')"
    by (simp add: save_name_def)
  then have "nat_str i = nat_str i'"
    using nat_str_digits dot_not_digit by (metis append_sep_eq_list)
  with s show ?thesis by (simp add: nat_str_inj)
qed

lemma file_anno_line:
  "x \<in> set (file_anno c spk j f r) \<Longrightarrow>
   \<exists>tok tr. x = anno_line (py_join (py_join (parent_dir c) spk) (save_name j)) spk (tag_text tok tr)"
proof -
  assume x: "x \<in> set (file_anno c spk j f r)"
  with file_anno_shape [of c spk j f r] obtain tok tr
    where "file_anno c spk j f r = [anno_line (py_join (py_join (parent_dir c) spk) (save_name j)) spk (tag_text tok tr)]"
    by auto
  with x show ?thesis by (intro exI [of _ tok] exI [of _ tr]) simp
qed

lemma length_file_anno: "length (file_anno c spk j f r) \<le> 1"
  using file_anno_shape [of c spk j f r] by auto

lemma distinct_file_anno: "distinct (file_anno c spk j f r)"
  using file_anno_shape [of c spk j f r] by auto

lemma file_anno_disjoint:
  "valid_name spk1 \<Longrightarrow> valid_name spk2 \<Longrightarrow> (spk1, j1) \<noteq> (spk2, j2) \<Longrightarrow>
   set (file_anno c spk1 j1 f1 r) \<inter> set (file_anno c spk2 j2 f2 r) = {}"
proof (rule equals0I)
  assume v1: "valid_name spk1" and v2: "valid_name spk2" and ne: "(spk1, j1) \<noteq> (spk2, j2)"
  fix x assume "x \<in> set (file_anno c spk1 j1 f1 r) \<inter> set (file_anno c spk2 j2 f2 r)"
  then have x1: "x \<in> set (file_anno c spk1 j1 f1 r)" and x2: "x \<in> set (file_anno c spk2 j2 f2 r)"
    by auto
  from file_anno_line [OF x1] obtain tok tr
    where e1: "x = anno_line (py_join (py_join (parent_dir c) spk1) (save_name j1)) spk1 (tag_text tok tr)"
    by blast
  from file_anno_line [OF x2] obtain tok' tr'
    where e2: "x = anno_line (py_join (py_join (parent_dir c) spk2) (save_name j2)) spk2 (tag_text tok' tr')"
    by blast
  from e1 e2 have "spk1 = spk2 \<and> j1 = j2"
    using anno_key_inj [where p = "parent_dir c" and i = j1 and i' = j2
        and t = "tag_text tok tr" and t' = "tag_text tok' tr'", OF v1 v2] by simp
  with ne show False by simp
qed

lemma distinct_speaker_block: "valid_name spk \<Longrightarrow> distinct (speaker_block c r spk)"
  unfolding speaker_block_def
proof (rule distinct_concat_map)
  assume v: "valid_name spk"
  show "distinct (enumerate 0 (speaker_listing r spk))"
    by (simp add: enumerate_eq_zip distinct_zipI1)
  show "\<forall>x \<in> set (enumerate 0 (speaker_listing r spk)). distinct (case x of (j, f) \<Rightarrow> file_anno c spk j f r)"
    by (auto simp: distinct_file_anno)
  show "\<forall>x \<in> set (enumerate 0 (speaker_listing r spk)). \<forall>y \<in> set (enumerate 0 (speaker_listing r spk)).
          x \<noteq> y \<longrightarrow> set (case x of (j, f) \<Rightarrow> file_anno c spk j f r) \<inter> set (case y of (j, f) \<Rightarrow> file_anno c spk j f r) = {}"
  proof (intro ballI impI)
    fix x y
    assume x: "x \<in> set (enumerate 0 (speaker_listing r spk))"
      and y: "y \<in> set (enumerate 0 (speaker_listing r spk))" and ne: "x \<noteq> y"
    obtain j1 f1 j2 f2 where xy: "x = (j1, f1)" "y = (j2, f2)" by fastforce
    from x y ne xy have "j1 \<noteq> j2" by (auto simp: in_set_enumerate_eq)
    with v xy show "set (case x of (j, f) \<Rightarrow> file_anno c spk j f r) \<inter> set (case y of (j, f) \<Rightarrow> file_anno c spk j f r) = {}"
      by (simp add: file_anno_disjoint)
  qed
qed

lemma speaker_block_elem:
  "x \<in> set (speaker_block c r spk) \<Longrightarrow> \<exists>j f. x \<in> set (file_anno c spk j f r)"
  by (auto simp: speaker_block_def)

lemma distinct_corpus_annos:
  assumes d: "distinct spks" and v: "\<forall>spk \<in> set spks. valid_name spk"
  shows "distinct (corpus_annos c r spks)"
  unfolding corpus_annos_def
proof (rule distinct_concat_map [OF d])
  show "\<forall>spk \<in> set spks. distinct (speaker_block c r spk)"
    using v by (simp add: distinct_speaker_block)
  show "\<forall>x \<in> set spks. \<forall>y \<in> set spks. x \<noteq> y \<longrightarrow> set (speaker_block c r x) \<inter> set (speaker_block c r y) = {}"
  proof (intro ballI impI equals0I)
    fix spk spk' z
    assume s: "spk \<in> set spks" and s': "spk' \<in> set spks" and ne: "spk \<noteq> spk'"
      and z: "z \<in> set (speaker_block c r spk) \<inter> set (speaker_block c r spk')"
    from z obtain j f j' f' where "z \<in> set (file_anno c spk j f r)" "z \<in> set (file_anno c spk' j' f' r)"
      by (auto dest!: speaker_block_elem)
    moreover from s s' v ne have "set (file_anno c spk j f r) \<inter> set (file_anno c spk' j' f' r) = {}"
      by (simp add: file_anno_disjoint)
    ultimately show False by blast
  qed
qed

lemma file_anno_no_ko: "map_of (lang2token c) ''ko'' = None \<Longrightarrow> file_anno c spk j f r = []"
  using file_anno_shape [of c spk j f r] whisper_on_bytes_lang by fastforce

lemma process_speakers_no_ko:
  assumes k: "map_of (lang2token c) ''ko'' = None"
  shows "speaker_annos (process_speakers c spks s) = speaker_annos s"
proof -
  have f: "speaker_annos (process_files c spk i fs s) = speaker_annos s" for spk i fs s
    by (induction fs arbitrary: i s) (simp_all add: process_file_annos file_anno_no_ko [OF k])
  show ?thesis
    by (induction spks arbitrary: s) (simp_all add: process_speaker_def f)
qed

subsection \<open>Progress lines and the files a run touches\<close>

lemma progress_msgs_append [simp]: "progress_msgs (xs @ ys) = progress_msgs xs @ progress_msgs ys"
  by (simp add: progress_msgs_def)

lemma progress_ok_process_file:
  "progress_ok (total_files c) s \<Longrightarrow> progress_ok (total_files c) (process_file c spk i f s)"
  by (auto simp: progress_ok_def pipeline_simps progress_msgs_def
           split: sum.splits norm_result.splits option.splits prod.splits)

lemma progress_ok_process_speakers:
  "progress_ok (total_files c) s \<Longrightarrow> progress_ok (total_files c) (process_speakers c spks s)"
proof -
  have f: "progress_ok (total_files c) s \<Longrightarrow> progress_ok (total_files c) (process_files c spk i fs s)" for spk i fs s
    by (induction fs arbitrary: i s) (simp_all add: progress_ok_process_file)
  show "progress_ok (total_files c) s \<Longrightarrow> progress_ok (total_files c) (process_speakers c spks s)"
    by (induction spks arbitrary: s) (simp_all add: process_speaker_def f)
qed

lemma writes_in_sources:
  "writes_in spk r r' \<Longrightarrow> \<not> startswith f ''processed_'' \<Longrightarrow> lookup2 r' spk' f = lookup2 r spk' f"
proof (induction rule: writes_in.induct)
  case (writes_refl sp r)
  then show ?case by simp
next
  case (writes_step sp r r1 j b r2)
  then have "f \<noteq> save_name j" using save_name_processed by auto
  with writes_step show ?case by (simp add: lookup2_write_other)
qed

lemma process_speakers_sources:
  "\<not> startswith f ''processed_'' \<Longrightarrow> lookup2 (root (process_speakers c spks s)) spk f = lookup2 (root s) spk f"
proof (induction spks arbitrary: s)
  case Nil
  then show ?case by simp
next
  case (Cons spk' spks)
  have "writes_in spk' (root s) (root (process_speaker c spk' s))"
    by (simp add: process_speaker_def writes_in_process_files)
  with Cons show ?case by (simp add: writes_in_sources)
qed

text \<open>C19: when an iteration changes the corpus, it has written the accepted clip,
  encoded at the target rate, to \<open>processed_i.wav\<close> of the speaker directory,
  and nothing else; this happens before the transcriber runs, so the file stays
  even when transcription then fails.\<close>

theorem process_file_writes:
  "root (process_file c spk i f s) \<noteq> root s \<Longrightarrow>
   \<exists>wav b. normalize (lib c) (target_sr c) (root s) spk f = Inr (Accepted wav) \<and>
           ta_save (lib c) wav (target_sr c) = Inr b \<and>
           write_file (root s) spk (save_name i) b = Inr (root (process_file c spk i f s))"
  by (auto simp: pipeline_simps split: if_splits sum.splits norm_result.splits option.splits prod.splits)

subsection \<open>Every candidate is accounted for\<close>

lemma outcomes_process_file:
  "outcomes (process_file c spk i f s) = outcomes s + (if skip_name f then 0 else 1)"
  by (auto simp: outcomes_def pipeline_simps split: sum.splits norm_result.splits option.splits prod.splits)

lemma outcomes_process_files:
  "outcomes (process_files c spk i fs s) = outcomes s + candidates fs"
  by (induction fs arbitrary: i s) (simp_all add: outcomes_process_file candidates_def)

lemma speaker_listing_writes_in:
  "writes_in spk r r' \<Longrightarrow> spk' \<noteq> spk \<Longrightarrow> speaker_listing r' spk' = speaker_listing r spk'"
  by (simp add: speaker_listing_def writes_in_other_child)

lemma outcomes_process_speakers:
  "distinct spks \<Longrightarrow>
   outcomes (process_speakers c spks s) = outcomes s + sum_list (map (\<lambda>spk. candidates (speaker_listing (root s) spk)) spks)"
proof (induction spks arbitrary: s)
  case Nil
  then show ?case by simp
next
  case (Cons spk spks)
  let ?s1 = "process_speaker c spk s"
  have w: "writes_in spk (root s) (root ?s1)"
    by (simp add: process_speaker_def writes_in_process_files)
  have "map (\<lambda>x. candidates (speaker_listing (root ?s1) x)) spks = map (\<lambda>x. candidates (speaker_listing (root s) x)) spks"
  proof (rule map_cong [OF refl])
    fix x assume "x \<in> set spks"
    with Cons.prems have "x \<noteq> spk" by auto
    with w show "candidates (speaker_listing (root ?s1) x) = candidates (speaker_listing (root s) x)"
      by (simp add: speaker_listing_writes_in)
  qed
  with Cons.IH [of ?s1] Cons.prems show ?case
    by (simp add: process_speaker_def outcomes_process_files del: map_eq_conv)
qed

subsection \<open>Records and files\<close>

lemma file_anno_file: "file_anno c spk j f r \<noteq> [] \<Longrightarrow> is_file_node (lookup2 r spk f)"
  by (auto simp: file_anno_def normalize_def load_wav_def read_file_def is_file_node_def
           split: if_splits sum.splits norm_result.splits node.splits option.splits bool.splits prod.splits)

lemma length_file_anno_file:
  "length (file_anno c spk j f r) \<le> (if is_file_node (lookup2 r spk f) then 1 else 0)"
  using length_file_anno [of c spk j f r] file_anno_file [of c spk j f r] by (cases "file_anno c spk j f r") auto

lemma length_files_block:
  "length (concat (map (\<lambda>(j, f). file_anno c spk j f r) (enumerate n L))) \<le>
   length (filter (\<lambda>f. is_file_node (lookup2 r spk f)) L)"
proof (induction L arbitrary: n)
  case Nil
  then show ?case by simp
next
  case (Cons f L)
  from length_file_anno_file [of c spk n f r] Cons.IH [of "Suc n"] show ?case by auto
qed

lemma speaker_block_le:
  assumes d: "\<And>ds. child r spk = Some (Dir ds) \<Longrightarrow> distinct (map fst ds)"
  shows "length (speaker_block c r spk) \<le> (case child r spk of Some (Dir ds) \<Rightarrow> count_files (Dir ds) | _ \<Rightarrow> 0)"
proof (cases "child r spk")
  case None
  then show ?thesis by (simp add: speaker_block_def speaker_listing_def)
next
  case (Some x)
  show ?thesis
  proof (cases x)
    case (File b)
    with Some show ?thesis by (simp add: speaker_block_def speaker_listing_def dir_entries_def)
  next
    case (Dir ds)
    with Some have "child r spk = Some (Dir ds)" by simp
    then have dd: "distinct (map fst ds)" by (rule d)
    have "length (speaker_block c r spk) \<le> length (filter (\<lambda>f. is_file_node (lookup2 r spk f)) (map fst ds))"
      using length_files_block [of c spk r 0 "map fst ds"] Some Dir
      by (simp add: speaker_block_def speaker_listing_def dir_entries_def)
    also have "\<dots> = length (filter (\<lambda>f. is_file_node (map_of ds f)) (map fst ds))"
      using Some Dir by (simp add: lookup2_def child_def)
    also have "\<dots> = length (filter (\<lambda>p. is_file_node (Some (snd p))) ds)"
      using filter_map_fst_map_of [OF dd, of "\<lambda>n x. n" is_file_node] by (metis length_map)
    also have "\<dots> \<le> count_files (Dir ds)" by (rule count_file_children)
    finally show ?thesis using Some Dir by simp
  qed
qed

subsection \<open>What is printed, file by file\<close>

lemma process_file_trace:
  "\<not> skip_name f \<Longrightarrow>
   \<exists>ms. out (process_file c spk i f s) = out s @ ms \<and> file_trace f (processed_files s) (total_files c) ms"
  by (auto simp: process_file_def emit_def Let_def
           split: sum.splits norm_result.splits option.splits prod.splits)

text \<open>The printed lines of the loops split into one group per candidate file,
  in listing order, each an admissible trace for its file.\<close>

lemma process_files_traces:
  "\<exists>mss. out (process_files c spk i fs s) = out s @ concat mss \<and>
         list_all2 (\<lambda>f ms. \<exists>k. file_trace f k (total_files c) ms) (filter (\<lambda>f. \<not> skip_name f) fs) mss"
proof (induction fs arbitrary: i s)
  case Nil
  show ?case by (rule exI [of _ "[]"]) simp
next
  case (Cons f fs)
  obtain mss where m: "out (process_files c spk (Suc i) fs (process_file c spk i f s)) =
        out (process_file c spk i f s) @ concat mss"
      and ok: "list_all2 (\<lambda>f ms. \<exists>k. file_trace f k (total_files c) ms) (filter (\<lambda>f. \<not> skip_name f) fs) mss"
    using Cons.IH by blast
  show ?case
  proof (cases "skip_name f")
    case True
    with m ok show ?thesis by (auto simp: process_file_skip)
  next
    case False
    then obtain ms where "out (process_file c spk i f s) = out s @ ms"
        and "file_trace f (processed_files s) (total_files c) ms"
      by (blast dest: process_file_trace)
    with False m ok show ?thesis by (intro exI [of _ "ms # mss"]) auto
  qed
qed

lemma process_speakers_traces:
  "distinct spks \<Longrightarrow>
   \<exists>mss. out (process_speakers c spks s) = out s @ concat mss \<and>
         list_all2 (\<lambda>f ms. \<exists>k. file_trace f k (total_files c) ms)
           (concat (map (\<lambda>spk. filter (\<lambda>f. \<not> skip_name f) (speaker_listing (root s) spk)) spks)) mss"
proof (induction spks arbitrary: s)
  case Nil
  show ?case by (rule exI [of _ "[]"]) simp
next
  case (Cons spk spks)
  let ?s' = "process_speaker c spk s"
  from Cons.prems have d: "distinct spks" and ns: "spk \<notin> set spks" by simp_all
  obtain mss where m: "out (process_speakers c spks ?s') = out ?s' @ concat mss"
      and ok: "list_all2 (\<lambda>f ms. \<exists>k. file_trace f k (total_files c) ms)
           (concat (map (\<lambda>sp. filter (\<lambda>f. \<not> skip_name f) (speaker_listing (root ?s') sp)) spks)) mss"
    using Cons.IH [OF d] by blast
  obtain mss' where m': "out ?s' = out s @ concat mss'"
      and ok': "list_all2 (\<lambda>f ms. \<exists>k. file_trace f k (total_files c) ms)
           (filter (\<lambda>f. \<not> skip_name f) (speaker_listing (root s) spk)) mss'"
    unfolding process_speaker_def using process_files_traces by blast
  have "writes_in spk (root s) (root ?s')" by (simp add: process_speaker_def writes_in_process_files)
  then have "speaker_listing (root ?s') sp = speaker_listing (root s) sp" if "sp \<in> set spks" for sp
    using ns that by (auto intro: speaker_listing_writes_in)
  then have "map (\<lambda>sp. filter (\<lambda>f. \<not> skip_name f) (speaker_listing (root ?s') sp)) spks =
      map (\<lambda>sp. filter (\<lambda>f. \<not> skip_name f) (speaker_listing (root s) sp)) spks"
    by simp
  with m m' ok ok' show ?case
    by (intro exI [of _ "mss' @ mss"]) (simp add: list_all2_appendI)
qed

text \<open>A property every record of the contract has holds of every record the
  loops accumulate.\<close>

lemma process_speakers_records_all:
  assumes "\<forall>x \<in> set (speaker_annos s). Q x"
    and "\<And>spk i f r x. x \<in> set (file_anno c spk i f r) \<Longrightarrow> Q x"
  shows "\<forall>x \<in> set (speaker_annos (process_speakers c spks s)). Q x"
proof -
  have f: "\<forall>x \<in> set (speaker_annos (process_files c spk i fs s)). Q x"
    if "\<forall>x \<in> set (speaker_annos s). Q x" for spk i fs s
    using that
  proof (induction fs arbitrary: i s)
    case (Cons f fs)
    then have "\<forall>x \<in> set (speaker_annos (process_file c spk i f s)). Q x"
      by (auto simp: process_file_annos assms(2))
    then show ?case using Cons.IH by simp
  qed simp
  show ?thesis using assms(1)
  proof (induction spks arbitrary: s)
    case (Cons spk spks)
    have "\<forall>x \<in> set (speaker_annos (process_speaker c spk s)). Q x"
      unfolding process_speaker_def using Cons.prems by (rule f)
    then show ?case by (simp add: Cons.IH)
  qed simp
qed

subsection \<open>The model reaches a file only through \<open>transcribe_one\<close>\<close>

lemma process_file_model_cong:
  "(\<And>r spk f. transcribe_one m' r spk f = transcribe_one (model c) r spk f) \<Longrightarrow>
   process_file (c\<lparr>model := m'\<rparr>) spk i f s = process_file c spk i f s"
  by (simp add: process_file_def Let_def split: sum.split norm_result.split option.split prod.split)

lemma process_speakers_model_cong:
  assumes "\<And>r spk f. transcribe_one m' r spk f = transcribe_one (model c) r spk f"
  shows "process_speakers (c\<lparr>model := m'\<rparr>) spks s = process_speakers c spks s"
proof -
  have "process_files (c\<lparr>model := m'\<rparr>) spk i fs s = process_files c spk i fs s" for spk i fs s
    by (induction fs arbitrary: i s) (simp_all add: process_file_model_cong [OF assms])
  then show ?thesis
    by (induction spks arbitrary: s) (simp_all add: process_speaker_def)
qed

subsection \<open>Every record names a file that holds what was transcribed\<close>

text \<open>Each iteration writes only its own \<open>processed_<i>.wav\<close>, so no later
  iteration overwrites the file an earlier record names.\<close>

lemma file_anno_cases:
  "file_anno c spk i f r = [] \<or>
   (\<not> skip_name f \<and>
    (\<exists>wav b lang tr tok. normalize (lib c) (target_sr c) r spk f = Inr (Accepted wav) \<and>
      ta_save (lib c) wav (target_sr c) = Inr b \<and> writable r spk (save_name i) \<and>
      whisper_on_bytes (model c) b = Inr (lang, tr) \<and> map_of (lang2token c) lang = Some tok \<and>
      file_anno c spk i f r = [anno_line (py_join (py_join (parent_dir c) spk) (save_name i)) spk (tag_text tok tr)]))"
  unfolding file_anno_def
  by (auto split: sum.splits norm_result.splits option.splits)

lemma process_file_lookup_other:
  "(sp, n) \<noteq> (spk, save_name i) \<Longrightarrow> lookup2 (root (process_file c spk i f s)) sp n = lookup2 (root s) sp n"
  using process_file_root [of c spk i f s] lookup2_write_other by fastforce

lemma process_file_new_record:
  assumes x: "x \<in> set (file_anno c spk i f (root s))"
  shows "\<exists>tok tr. x = rec_at c spk i tok tr \<and> backed c (root (process_file c spk i f s)) spk i tr"
proof -
  from x file_anno_cases [of c spk i f "root s"] obtain wav b lang tr tok where ns: "\<not> skip_name f"
      and n: "normalize (lib c) (target_sr c) (root s) spk f = Inr (Accepted wav)"
      and e: "ta_save (lib c) wav (target_sr c) = Inr b" and wr: "writable (root s) spk (save_name i)"
      and t: "whisper_on_bytes (model c) b = Inr (lang, tr)" and k: "map_of (lang2token c) lang = Some tok"
      and xe: "x = rec_at c spk i tok tr"
    by auto
  from wr obtain r' where w: "write_file (root s) spk (save_name i) b = Inr r'"
    using write_file_ok by blast
  have l: "lookup2 r' spk (save_name i) = Some (File b)" using w by (rule lookup2_write_same)
  have "transcribe_one (model c) r' spk (save_name i) = Inr (lang, tr)"
    using transcribe_after_write [OF w] t by simp
  with ns n e w k have "root (process_file c spk i f s) = r'"
    by (simp add: pipeline_simps)
  moreover from t have "lang = ''ko''" by (rule whisper_on_bytes_lang)
  ultimately show ?thesis using xe l t by auto
qed

lemma process_files_records:
  assumes "Q spk"
    and "\<forall>x \<in> set (speaker_annos s). \<exists>sp j tok tr. x = rec_at c sp j tok tr \<and> backed c (root s) sp j tr \<and>
           Q sp \<and> (sp = spk \<longrightarrow> j < i)"
  shows "\<forall>x \<in> set (speaker_annos (process_files c spk i fs s)). \<exists>sp j tok tr.
           x = rec_at c sp j tok tr \<and> backed c (root (process_files c spk i fs s)) sp j tr \<and>
           Q sp \<and> (sp = spk \<longrightarrow> j < i + length fs)"
  using assms(2)
proof (induction fs arbitrary: i s)
  case Nil
  then show ?case by simp
next
  case (Cons f fs)
  let ?s' = "process_file c spk i f s"
  have "\<forall>x \<in> set (speaker_annos ?s'). \<exists>sp j tok tr. x = rec_at c sp j tok tr \<and> backed c (root ?s') sp j tr \<and>
           Q sp \<and> (sp = spk \<longrightarrow> j < Suc i)"
  proof
    fix x assume "x \<in> set (speaker_annos ?s')"
    then consider (old) "x \<in> set (speaker_annos s)" | (new) "x \<in> set (file_anno c spk i f (root s))"
      by (auto simp: process_file_annos)
    then show "\<exists>sp j tok tr. x = rec_at c sp j tok tr \<and> backed c (root ?s') sp j tr \<and> Q sp \<and> (sp = spk \<longrightarrow> j < Suc i)"
    proof cases
      case old
      with Cons.prems obtain sp j tok tr where "x = rec_at c sp j tok tr" "backed c (root s) sp j tr" "Q sp"
          and lt: "sp = spk \<longrightarrow> j < i"
        by blast
      moreover from lt have "(sp, save_name j) \<noteq> (spk, save_name i)" by (auto simp: save_name_inj)
      then have "lookup2 (root ?s') sp (save_name j) = lookup2 (root s) sp (save_name j)"
        by (rule process_file_lookup_other)
      ultimately show ?thesis
        by (intro exI [of _ sp] exI [of _ j] exI [of _ tok] exI [of _ tr]) auto
    next
      case new
      then show ?thesis using process_file_new_record [OF new] assms(1) by blast
    qed
  qed
  from Cons.IH [OF this] show ?case by simp
qed

lemma process_speakers_records:
  assumes "distinct spks"
    and "\<forall>x \<in> set (speaker_annos s). \<exists>sp j tok tr. x = rec_at c sp j tok tr \<and> backed c (root s) sp j tr \<and>
           sp \<notin> set spks"
  shows "\<forall>x \<in> set (speaker_annos (process_speakers c spks s)). \<exists>sp j tok tr.
           x = rec_at c sp j tok tr \<and> backed c (root (process_speakers c spks s)) sp j tr"
  using assms
proof (induction spks arbitrary: s)
  case Nil
  then show ?case by simp
next
  case (Cons spk spks)
  have "spk \<notin> set spks" using Cons.prems(1) by simp
  moreover have "\<forall>x \<in> set (speaker_annos s). \<exists>sp j tok tr. x = rec_at c sp j tok tr \<and> backed c (root s) sp j tr \<and>
           sp \<notin> set spks \<and> (sp = spk \<longrightarrow> j < 0)"
    using Cons.prems(2) by fastforce
  ultimately have "\<forall>x \<in> set (speaker_annos (process_speaker c spk s)). \<exists>sp j tok tr.
           x = rec_at c sp j tok tr \<and> backed c (root (process_speaker c spk s)) sp j tr \<and> sp \<notin> set spks \<and>
           (sp = spk \<longrightarrow> j < 0 + length (speaker_listing (root s) spk))"
    unfolding process_speaker_def by (rule process_files_records [where Q = "\<lambda>sp. sp \<notin> set spks"])
  then have "\<forall>x \<in> set (speaker_annos (process_speaker c spk s)). \<exists>sp j tok tr.
           x = rec_at c sp j tok tr \<and> backed c (root (process_speaker c spk s)) sp j tr \<and> sp \<notin> set spks"
    by blast
  with Cons.IH [of "process_speaker c spk s"] Cons.prems(1) show ?case by simp
qed

subsection \<open>Every candidate file is handled\<close>

lemma grows_handled: "handled pd spk i f s \<Longrightarrow> grows s s' \<Longrightarrow> handled pd spk i f s'"
  unfolding grows_def by blast

lemma grows_trans: "grows s1 s2 \<Longrightarrow> grows s2 s3 \<Longrightarrow> grows s1 s3"
  unfolding grows_def by blast

lemma grows_process_file: "grows s (process_file c spk i f s)"
  by (auto simp: grows_def pipeline_simps split: sum.splits norm_result.splits option.splits prod.splits)

lemma grows_process_files: "grows s (process_files c spk i fs s)"
proof (induction fs arbitrary: i s)
  case Nil
  show ?case by (simp add: grows_def)
next
  case (Cons f fs)
  show ?case using grows_trans [OF grows_process_file Cons.IH] by simp
qed

lemma grows_process_speakers: "grows s (process_speakers c spks s)"
proof (induction spks arbitrary: s)
  case Nil
  show ?case by (simp add: grows_def)
next
  case (Cons spk spks)
  have "grows s (process_speaker c spk s)" by (simp add: process_speaker_def grows_process_files)
  from grows_trans [OF this Cons.IH] show ?case by simp
qed

lemma process_file_handled: "\<not> skip_name f \<Longrightarrow> handled (parent_dir c) spk i f (process_file c spk i f s)"
  by (auto simp: pipeline_simps split: sum.splits norm_result.splits option.splits prod.splits)

lemma process_files_handled:
  "i < length fs \<Longrightarrow> \<not> skip_name (fs ! i) \<Longrightarrow>
   handled (parent_dir c) spk (i0 + i) (fs ! i) (process_files c spk i0 fs s)"
proof (induction fs arbitrary: i i0 s)
  case Nil
  then show ?case by simp
next
  case (Cons f fs)
  show ?case
  proof (cases i)
    case 0
    with Cons.prems have "\<not> skip_name f" by simp
    then have "handled (parent_dir c) spk i0 f (process_file c spk i0 f s)" by (rule process_file_handled)
    then have "handled (parent_dir c) spk i0 f (process_files c spk (Suc i0) fs (process_file c spk i0 f s))"
      using grows_process_files by (rule grows_handled)
    with 0 show ?thesis by simp
  next
    case (Suc j)
    with Cons.prems have "handled (parent_dir c) spk (Suc i0 + j) (fs ! j) (process_files c spk (Suc i0) fs (process_file c spk i0 f s))"
      by (intro Cons.IH) simp_all
    with Suc show ?thesis by simp
  qed
qed


lemma process_speakers_handled:
  assumes "distinct spks" and "spk \<in> set spks" and "i < length (speaker_listing (root s) spk)"
    and "\<not> skip_name (speaker_listing (root s) spk ! i)"
  shows "handled (parent_dir c) spk i (speaker_listing (root s) spk ! i) (process_speakers c spks s)"
  using assms
proof (induction spks arbitrary: s)
  case Nil
  then show ?case by simp
next
  case (Cons sp spks)
  let ?s' = "process_speaker c sp s"
  show ?case
  proof (cases "sp = spk")
    case True
    from Cons.prems have "handled (parent_dir c) spk (0 + i) (speaker_listing (root s) spk ! i)
        (process_files c spk 0 (speaker_listing (root s) spk) s)"
      by (intro process_files_handled) simp_all
    with True have "handled (parent_dir c) spk i (speaker_listing (root s) spk ! i) ?s'"
      by (simp add: process_speaker_def)
    then have "handled (parent_dir c) spk i (speaker_listing (root s) spk ! i) (process_speakers c spks ?s')"
      using grows_process_speakers by (rule grows_handled)
    then show ?thesis by simp
  next
    case False
    have "writes_in sp (root s) (root ?s')" by (simp add: process_speaker_def writes_in_process_files)
    with False have l: "speaker_listing (root ?s') spk = speaker_listing (root s) spk"
      by (simp add: speaker_listing_writes_in)
    from Cons.prems False have "handled (parent_dir c) spk i (speaker_listing (root ?s') spk ! i) (process_speakers c spks ?s')"
      by (intro Cons.IH) (simp_all add: l)
    with l show ?thesis by simp
  qed
qed

subsection \<open>Writing outputs leaves every contribution unchanged\<close>

text \<open>An output write appends at most an output name to a listing (the tree
  adds a new entry after the existing ones), changes no source file and keeps
  every entry writable; so each file yields what it yielded before.\<close>

lemma write_listing:
  assumes w: "write_file r spk (save_name j) b = Inr r'"
  shows "\<exists>ys. speaker_listing r' x = speaker_listing r x @ ys \<and> (\<forall>y \<in> set ys. skip_name y)"
proof (cases "x = spk")
  case True
  from w obtain cs ds where r: "r = Dir cs" and d: "map_of cs spk = Some (Dir ds)"
      and r': "r' = Dir (put_child spk (Dir (put_child (save_name j) (File b) ds)) cs)"
    by (auto simp: write_file_Inr)
  have "speaker_listing r' spk = map fst (put_child (save_name j) (File b) ds)"
    by (simp add: r' speaker_listing_def child_def dir_entries_def)
  moreover have "speaker_listing r spk = map fst ds"
    by (simp add: r d speaker_listing_def child_def dir_entries_def)
  ultimately show ?thesis
    using True by (auto simp: map_fst_put_child_new save_name_skipped)
next
  case False
  have "child r' x = child r x" using child_write_other [OF w False] .
  then show ?thesis by (intro exI [of _ "[]"]) (simp add: speaker_listing_def)
qed

lemma write_lookup_source:
  "write_file r spk (save_name j) b = Inr r' \<Longrightarrow> \<not> skip_name f \<Longrightarrow> lookup2 r' x f = lookup2 r x f"
  by (rule lookup2_write_other) (auto simp: save_name_skipped)

lemma write_writable:
  assumes w: "write_file r spk (save_name j) b = Inr r'"
  shows "writable r' x n = writable r x n"
proof (cases "(x, n) = (spk, save_name j)")
  case True
  from w have "writable r spk (save_name j)" using write_file_ok by blast
  moreover from w have "lookup2 r' spk (save_name j) = Some (File b)" by (rule lookup2_write_same)
  moreover from w have "is_dir_node (child r' spk) = is_dir_node (child r spk)" by (rule child_write_dir)
  ultimately show ?thesis using True by (auto simp: writable_def is_dir_node_def)
next
  case False
  with w have "lookup2 r' x n = lookup2 r x n" by (rule lookup2_write_other)
  moreover from w have "is_dir_node (child r' x) = is_dir_node (child r x)" by (rule child_write_dir)
  ultimately show ?thesis by (simp add: writable_def)
qed

lemma write_file_anno:
  assumes w: "write_file r spk (save_name j) b = Inr r'"
  shows "file_anno c x i f r' = file_anno c x i f r"
proof (cases "skip_name f")
  case True
  then show ?thesis by (simp add: file_anno_def)
next
  case False
  show ?thesis
    by (rule file_anno_cong) (simp_all add: write_lookup_source [OF w False] write_writable [OF w])
qed

lemma file_anno_skip: "skip_name f \<Longrightarrow> file_anno c x i f r = []"
  by (simp add: file_anno_def)

lemma write_speaker_block:
  assumes w: "write_file r spk (save_name j) b = Inr r'"
  shows "speaker_block c r' x = speaker_block c r x"
proof -
  obtain ys where l: "speaker_listing r' x = speaker_listing r x @ ys" and ys: "\<forall>y \<in> set ys. skip_name y"
    using write_listing [OF w] by blast
  have "concat (map (\<lambda>(k, f). file_anno c x k f r') (enumerate n ys)) = []" for n
    using ys by (induction ys arbitrary: n) (simp_all add: file_anno_skip)
  then show ?thesis
    by (simp add: speaker_block_def l enumerate_append_eq write_file_anno [OF w])
qed

lemma speaker_block_total: "speaker_block (c\<lparr>total_files := n\<rparr>) = speaker_block c"
  by (intro ext) (simp add: speaker_block_def file_anno_def
           cong: sum.case_cong norm_result.case_cong option.case_cong prod.case_cong if_cong)

lemma outputs_written_trans: "outputs_written r2 r3 \<Longrightarrow> outputs_written r1 r2 \<Longrightarrow> outputs_written r1 r3"
  by (induction rule: outputs_written.induct) (auto intro: outputs_written.intros)

lemma writes_in_outputs: "writes_in spk r r' \<Longrightarrow> outputs_written r r'"
  by (induction rule: writes_in.induct) (auto intro: outputs_written.intros)

lemma process_files_outputs: "outputs_written (root s) (root (process_files c spk i fs s))"
  by (rule writes_in_outputs) (rule writes_in_process_files)

lemma process_speakers_outputs: "outputs_written (root s) (root (process_speakers c spks s))"
proof (induction spks arbitrary: s)
  case Nil
  show ?case by (simp add: ow_refl)
next
  case (Cons spk spks)
  have "outputs_written (root s) (root (process_speaker c spk s))"
    by (simp add: process_speaker_def process_files_outputs)
  with Cons.IH show ?case by (auto intro: outputs_written_trans)
qed

subsection \<open>A block depends on the listing only through its originals\<close>

lemma speaker_block_originals:
  "speaker_block c r x = concat (map (\<lambda>(j, f). file_anno c x j f r) (originals (speaker_listing r x)))"
  unfolding speaker_block_def originals_def
  by (rule concat_map_filter_nil [symmetric]) (auto simp: file_anno_def)

lemma outputs_written_file_anno:
  "outputs_written r r' \<Longrightarrow> file_anno c x j f r' = file_anno c x j f r"
  by (induction rule: outputs_written.induct) (simp_all add: write_file_anno)

end
