(* ===== verification/Manifest.thy ===== *)
theory Manifest
  imports Walker
begin

text \<open>
  The annotation writer, lines 122--127 of \<^verbatim>\<open>short_audio_transcribe.py\<close>:
  \<open>f.writelines(speaker_annos)\<close> concatenates the lines, each of which ends in
  the newline of its tagged transcript.  The consumer of the manifest is not part
  of the repository; it is described by the spec (one record per line, fields
  separated by \<open>|\<close>), and \<open>parse_manifest\<close> reads it so: Python's
  \<open>str.split\<close> on newlines, dropping the empty piece after the last one, then on
  \<open>|\<close>.
\<close>

definition manifest_content :: "string list \<Rightarrow> string" where
  "manifest_content annos = concat annos"

text \<open>Python's \<open>s.split(c)\<close> for a one-character separator.\<close>

fun split_on :: "char \<Rightarrow> string \<Rightarrow> string list" where
  "split_on c [] = [[]]"
| "split_on c (x # xs) =
     (if x = c then [] # split_on c xs
      else (case split_on c xs of y # ys \<Rightarrow> (x # y) # ys | [] \<Rightarrow> [[x]]))"

definition parse_manifest :: "string \<Rightarrow> string list list" where
  "parse_manifest s = map (split_on (CHR ''|'')) (butlast (split_on (CHR ''\<newline>'') s))"

definition field_ok :: "string \<Rightarrow> bool" where
  "field_ok x \<longleftrightarrow> CHR ''|'' \<notin> set x \<and> CHR ''\<newline>'' \<notin> set x"

subsection \<open>Splitting\<close>

lemma split_on_no_sep: "c \<notin> set a \<Longrightarrow> split_on c a = [a]"
  by (induction a) auto

lemma split_on_sep: "c \<notin> set a \<Longrightarrow> split_on c (a @ c # b) = a # split_on c b"
proof (induction a)
  case Nil
  then show ?case by simp
next
  case (Cons x a)
  then show ?case by (cases "split_on c b") auto
qed

lemma split_on_lines:
  "\<forall>l \<in> set ls. c \<notin> set l \<Longrightarrow> split_on c (concat (map (\<lambda>l. l @ [c]) ls)) = ls @ [[]]"
  by (induction ls) (simp_all add: split_on_sep)

lemma split_on_fields:
  "field_ok p \<Longrightarrow> field_ok spk \<Longrightarrow> field_ok t \<Longrightarrow>
   split_on (CHR ''|'') (p @ CHR ''|'' # spk @ CHR ''|'' # t) = [p, spk, t]"
  by (simp add: field_ok_def split_on_sep split_on_no_sep)

subsection \<open>Round trip\<close>

lemma anno_line_tagged:
  "anno_line p spk (tag_text tok tr) = (p @ ''|'' @ spk @ ''|'' @ (tok @ tr @ tok)) @ [CHR ''\<newline>'']"
  by (simp add: anno_line_def tag_text_def)

text \<open>C13: reading back the manifest a run writes gives, line by line, the
  record's path, speaker and tagged transcript, provided no field contains a
  \<open>|\<close> or a newline.\<close>

theorem manifest_roundtrip:
  assumes ok: "\<forall>(p, spk, tok, tr) \<in> set recs. field_ok p \<and> field_ok spk \<and> field_ok (tok @ tr @ tok)"
  shows "parse_manifest (manifest_content (map (\<lambda>(p, spk, tok, tr). anno_line p spk (tag_text tok tr)) recs)) =
         map (\<lambda>(p, spk, tok, tr). [p, spk, tok @ tr @ tok]) recs"
proof -
  let ?line = "\<lambda>(p, spk, tok, tr). p @ ''|'' @ spk @ ''|'' @ (tok @ tr @ tok)"
  have m: "map (\<lambda>(p, spk, tok, tr). anno_line p spk (tag_text tok tr)) recs =
           map (\<lambda>l. l @ [CHR ''\<newline>'']) (map ?line recs)"
    by (simp add: anno_line_tagged split_def)
  from ok have nl: "\<forall>l \<in> set (map ?line recs). CHR ''\<newline>'' \<notin> set l"
    by (auto simp: field_ok_def)
  have fields: "map (split_on (CHR ''|'')) (map ?line recs) = map (\<lambda>(p, spk, tok, tr). [p, spk, tok @ tr @ tok]) recs"
    unfolding map_map
  proof (rule map_cong [OF refl])
    fix x assume x: "x \<in> set recs"
    obtain p spk tok tr where xe: "x = (p, spk, tok, tr)" by (cases x) auto
    with x ok have "field_ok p" "field_ok spk" "field_ok (tok @ tr @ tok)" by auto
    with xe show "(split_on (CHR ''|'') \<circ> ?line) x = (\<lambda>(p, spk, tok, tr). [p, spk, tok @ tr @ tok]) x"
      by (simp add: split_on_fields)
  qed
  have "parse_manifest (manifest_content (map (\<lambda>(p, spk, tok, tr). anno_line p spk (tag_text tok tr)) recs)) =
        map (split_on (CHR ''|'')) (butlast (split_on (CHR ''\<newline>'') (concat (map (\<lambda>l. l @ [CHR ''\<newline>'']) (map ?line recs)))))"
    by (simp only: parse_manifest_def manifest_content_def m)
  also have "\<dots> = map (split_on (CHR ''|'')) (map ?line recs)"
    by (simp only: split_on_lines [OF nl] butlast_snoc)
  also note fields
  finally show ?thesis .
qed

end
