(* ===== verification/Run.thy ===== *)
theory Run
  imports Walker Manifest
begin

text \<open>
  The script's main block, lines 35--127 of \<^verbatim>\<open>short_audio_transcribe.py\<close>:
  choose \<open>lang2token\<close>, require a GPU, load the whisper model, list the speaker
  directories, count the files, read the target rate from
  \<^verbatim>\<open>./configs/finetune_speaker.json\<close>, run the two loops, report an empty result
  and write \<^verbatim>\<open>short_character_anno.txt\<close>.  The world the script starts in is
  the record \<open>world\<close>: whether CUDA is present, the model loader, the two
  libraries' operations, the corpus tree and the configuration file.  A run ends
  in \<open>Aborted\<close> with the uncaught exception and what was printed before it, or
  \<open>Finished\<close> with the final loop state and the content line 126 writes to the
  manifest; \<open>FinishedNoFile\<close> is a completed run whose manifest write is
  skipped, the outcome the spec describes for a run without records, which
  \<open>main\<close> never produces.  A sampling
  rate in the configuration that is not an integer is outside the model
  (\<open>OutOfModel\<close>).  The lemmas characterise \<open>main\<close>'s outcomes, bound the
  records by the \<open>os.walk\<close> count, and show that a run leaves the speaker
  names and the files passing the name filter as they were.
\<close>

datatype json =
    JNull
  | JBool bool
  | JNum int
  | JStr string
  | JArr "json list"
  | JObj "(string \<times> json) list"

datatype cfg_file = CfgMissing | CfgMalformed | CfgJson json

record args =
  languages :: string
  whisper_size :: string

record world =
  cuda_available :: bool
  load_model :: "string \<Rightarrow> py_exc + asr_model"
  audio :: audio_lib
  corpus :: "node option"
  config_file :: cfg_file

datatype run_result =
    Aborted py_exc "msg list"
  | Finished run_state string
  | FinishedNoFile run_state
  | OutOfModel "msg list"

definition parent_dir_path :: path where
  "parent_dir_path = ''./custom_character_voice/''"

text \<open>Subscripting a parsed JSON value with a string key: an object finds its
  key (the last of duplicates, as \<open>json.load\<close> keeps it), anything else is not
  subscriptable by a string.\<close>

definition py_getitem :: "json \<Rightarrow> string \<Rightarrow> py_exc + json" where
  "py_getitem j k =
     (case j of
        JObj kvs \<Rightarrow> (case map_of (rev kvs) k of None \<Rightarrow> Inl (KeyError k) | Some v \<Rightarrow> Inr v)
      | _ \<Rightarrow> Inl TypeError)"

text \<open>Lines 67--69: \<open>hps['data']['sampling_rate']\<close>.\<close>

definition read_sampling_rate :: "cfg_file \<Rightarrow> py_exc + json" where
  "read_sampling_rate cfg =
     (case cfg of
        CfgMissing \<Rightarrow> Inl (FileNotFoundError ''./configs/finetune_speaker.json'')
      | CfgMalformed \<Rightarrow> Inl JSONDecodeError
      | CfgJson hps \<Rightarrow>
          (case py_getitem hps ''data'' of
             Inl e \<Rightarrow> Inl e
           | Inr d \<Rightarrow> py_getitem d ''sampling_rate''))"

text \<open>Line 59: the entries of the root that are directories.\<close>

definition speaker_names :: "node \<Rightarrow> name list" where
  "speaker_names r = filter (\<lambda>d. is_dir_node (child r d)) (dir_entries r)"

text \<open>Lines 123--124: an empty result is reported; the file is written anyway.\<close>

definition report_empty :: "run_state \<Rightarrow> run_state" where
  "report_empty s = (if speaker_annos s = [] then emit NoValidFiles s else s)"

text \<open>The loop constants as the main block sets them up.\<close>

definition main_ctx :: "args \<Rightarrow> world \<Rightarrow> asr_model \<Rightarrow> node \<Rightarrow> int \<Rightarrow> ctx" where
  "main_ctx a w m r t =
     \<lparr>lib = audio w, model = m, lang2token = select_lang2token (languages a), target_sr = t,
      total_files = walk_total parent_dir_path r, parent_dir = parent_dir_path\<rparr>"

text \<open>Lines 59--64 and 71: the state before the loops, after the two prints.\<close>

definition start_state :: "node \<Rightarrow> run_state" where
  "start_state r =
     \<lparr>root = r, speaker_annos = [], processed_files = 0,
      out = [SpeakerNames (speaker_names r), TotalFiles (walk_total parent_dir_path r)]\<rparr>"

definition main :: "args \<Rightarrow> world \<Rightarrow> run_result" where
  "main a w =
     (if \<not> cuda_available w
      then Aborted (AssertionError ''Please enable GPU in order to run Whisper!'') []
      else case load_model w (whisper_size a) of
        Inl e \<Rightarrow> Aborted e []
      | Inr m \<Rightarrow>
          (case corpus w of
             None \<Rightarrow> Aborted (FileNotFoundError parent_dir_path) []
           | Some (File _) \<Rightarrow> Aborted (NotADirectoryError parent_dir_path) []
           | Some r \<Rightarrow>
               (case read_sampling_rate (config_file w) of
                  Inl e \<Rightarrow> Aborted e (out (start_state r))
                | Inr (JNum t) \<Rightarrow>
                    (let s = report_empty (process_speakers (main_ctx a w m r t) (speaker_names r) (start_state r))
                     in Finished s (manifest_content (speaker_annos s)))
                | Inr _ \<Rightarrow> OutOfModel (out (start_state r)))))"

text \<open>What a completed run leaves behind: its final state, and the manifest it
  wrote, if it wrote one.\<close>

fun final_state :: "run_result \<Rightarrow> run_state option" where
  "final_state (Finished s _) = Some s"
| "final_state (FinishedNoFile s) = Some s"
| "final_state _ = None"

fun manifest_written :: "run_result \<Rightarrow> string option" where
  "manifest_written (Finished _ content) = Some content"
| "manifest_written _ = None"

subsection \<open>How a run ends\<close>

lemma main_Finished:
  "main a w = Finished s content \<longleftrightarrow>
     cuda_available w \<and>
     (\<exists>m cs t. load_model w (whisper_size a) = Inr m \<and> corpus w = Some (Dir cs) \<and>
        read_sampling_rate (config_file w) = Inr (JNum t) \<and>
        s = report_empty (process_speakers (main_ctx a w m (Dir cs) t) (speaker_names (Dir cs)) (start_state (Dir cs))) \<and>
        content = manifest_content (speaker_annos s))"
  by (auto simp: main_def Let_def split: sum.splits option.splits node.splits json.splits)

lemma report_empty_annos [simp]: "speaker_annos (report_empty s) = speaker_annos s"
  by (simp add: report_empty_def emit_def)

lemma report_empty_out:
  "speaker_annos s = [] \<Longrightarrow> out (report_empty s) = out s @ [NoValidFiles]"
  by (simp add: report_empty_def emit_def)

lemma report_empty_root [simp]: "root (report_empty s) = root s"
  by (simp add: report_empty_def emit_def)

lemma report_empty_progress [simp]: "progress_msgs (out (report_empty s)) = progress_msgs (out s)"
  by (simp add: report_empty_def emit_def progress_msgs_def)

lemma report_empty_processed [simp]: "processed_files (report_empty s) = processed_files s"
  by (simp add: report_empty_def emit_def)

lemma speaker_names_distinct: "distinct (dir_entries r) \<Longrightarrow> distinct (speaker_names r)"
  by (simp add: speaker_names_def)

lemma speaker_names_subset: "set (speaker_names r) \<subseteq> set (dir_entries r)"
  by (auto simp: speaker_names_def)

lemma report_empty_outcomes [simp]: "filter outcome (out (report_empty s)) = filter outcome (out s)"
  by (simp add: report_empty_def emit_def)

lemma corpus_annos_le_count:
  assumes wf: "wf_corpus (Dir cs)"
  shows "length (corpus_annos c (Dir cs) (speaker_names (Dir cs))) \<le> count_files (Dir cs)"
proof -
  let ?g = "\<lambda>n x. case x of Some (Dir ds) \<Rightarrow> count_files (Dir ds) | _ \<Rightarrow> (0::nat)"
  from wf have dcs: "distinct (map fst cs)" by (simp add: wf_corpus_def dir_entries_def)
  have "length (corpus_annos c (Dir cs) (speaker_names (Dir cs))) =
        sum_list (map (\<lambda>spk. length (speaker_block c (Dir cs) spk)) (speaker_names (Dir cs)))"
    by (simp add: corpus_annos_def length_concat comp_def)
  also have "\<dots> \<le> sum_list (map (\<lambda>spk. ?g spk (child (Dir cs) spk)) (speaker_names (Dir cs)))"
  proof (rule sum_list_mono)
    fix spk assume s: "spk \<in> set (speaker_names (Dir cs))"
    then have "spk \<in> set (dir_entries (Dir cs))" using speaker_names_subset by blast
    with wf have "\<And>ds. child (Dir cs) spk = Some (Dir ds) \<Longrightarrow> distinct (map fst ds)"
      by (auto simp: wf_corpus_def dir_entries_def)
    then show "length (speaker_block c (Dir cs) spk) \<le> ?g spk (child (Dir cs) spk)"
      by (rule speaker_block_le)
  qed
  also have "\<dots> = sum_list (map (\<lambda>n. ?g n (map_of cs n)) (filter (\<lambda>n. is_dir_node (map_of cs n)) (map fst cs)))"
    by (simp add: speaker_names_def dir_entries_def child_def)
  also have "\<dots> = sum_list (map (\<lambda>p. ?g (fst p) (Some (snd p))) (filter (\<lambda>p. is_dir_node (Some (snd p))) cs))"
  proof -
    have "map (\<lambda>n. ?g n (map_of cs n)) (filter (\<lambda>n. is_dir_node (map_of cs n)) (map fst cs)) =
          map (\<lambda>p. ?g (fst p) (Some (snd p))) (filter (\<lambda>p. is_dir_node (Some (snd p))) cs)"
      by (rule filter_map_fst_map_of [OF dcs])
    then show ?thesis by (rule arg_cong)
  qed
  also have "\<dots> \<le> count_files (Dir cs)"
    using sum_dirs_le [of cs] by (simp add: case_prod_beta)
  finally show ?thesis .
qed

text \<open>A run writes only \<open>processed_*\<close> names into existing speaker
  directories: it leaves the speaker names, and the files the name filter lets
  through, as they were.\<close>

lemma write_candidates:
  assumes w: "write_file r spk (save_name j) b = Inr r'"
  shows "filter (\<lambda>f. \<not> skip_name f) (speaker_listing r' x) = filter (\<lambda>f. \<not> skip_name f) (speaker_listing r x)"
proof (cases "x = spk")
  case True
  from w obtain cs ds where r: "r = Dir cs" and d: "map_of cs spk = Some (Dir ds)"
      and r': "r' = Dir (put_child spk (Dir (put_child (save_name j) (File b) ds)) cs)"
    by (auto simp: write_file_Inr)
  have "speaker_listing r' spk = map fst (put_child (save_name j) (File b) ds)"
    by (simp add: r' speaker_listing_def child_def dir_entries_def)
  moreover have "speaker_listing r spk = map fst ds"
    by (simp add: r d speaker_listing_def child_def dir_entries_def)
  ultimately show ?thesis
    using True by (simp add: map_fst_put_child_new save_name_skipped)
next
  case False
  have c: "child r' x = child r x" using child_write_other [OF w False] .
  have "speaker_listing r' x = speaker_listing r x" by (simp add: speaker_listing_def c)
  then show ?thesis by (rule arg_cong)
qed

lemma write_speaker_names:
  "write_file r spk n b = Inr r' \<Longrightarrow> speaker_names r' = speaker_names r"
  by (simp add: speaker_names_def dir_entries_write child_write_dir)

lemma writes_in_candidates:
  "writes_in spk r r' \<Longrightarrow>
   speaker_names r' = speaker_names r \<and>
   filter (\<lambda>f. \<not> skip_name f) (speaker_listing r' x) = filter (\<lambda>f. \<not> skip_name f) (speaker_listing r x)"
  by (induction rule: writes_in.induct) (simp_all add: write_candidates write_speaker_names)

lemma process_speakers_candidates:
  "speaker_names (root (process_speakers c spks s)) = speaker_names (root s) \<and>
   filter (\<lambda>f. \<not> skip_name f) (speaker_listing (root (process_speakers c spks s)) x) =
   filter (\<lambda>f. \<not> skip_name f) (speaker_listing (root s) x)"
proof (induction spks arbitrary: s)
  case Nil
  show ?case by simp
next
  case (Cons spk spks)
  have "writes_in spk (root s) (root (process_speaker c spk s))"
    by (simp add: process_speaker_def writes_in_process_files)
  then have "speaker_names (root (process_speaker c spk s)) = speaker_names (root s) \<and>
      filter (\<lambda>f. \<not> skip_name f) (speaker_listing (root (process_speaker c spk s)) x) =
      filter (\<lambda>f. \<not> skip_name f) (speaker_listing (root s) x)"
    by (rule writes_in_candidates)
  with Cons.IH [of "process_speaker c spk s"] show ?case by simp
qed

lemma outputs_written_blocks:
  "outputs_written r r' \<Longrightarrow>
   speaker_names r' = speaker_names r \<and> dir_entries r' = dir_entries r \<and>
   speaker_block c r' x = speaker_block c r x"
  by (induction rule: outputs_written.induct)
     (simp_all add: write_speaker_names dir_entries_write write_speaker_block)

end
