(* ===== verification/Fixtures.thy ===== *)
theory Fixtures
  imports Run
begin

text \<open>
  Concrete instances of the model's interfaces, used to show that the
  hypotheses of the theorems can hold together, on the kinds of corpus the
  spec describes.  \<open>toy_audio\<close> decodes each byte of a non-empty file
  as one sample of a mono clip at 1 Hz (so ten bytes are a ten-second clip) and
  rejects an empty file as corrupt; it never needs to resample and encodes any
  clip as one byte.  \<open>toy_asr\<close> decodes every spectrogram as \<open>''hi''\<close>, and its
  detector claims Japanese, which the script ignores.  The configuration sets
  the target rate to 1 Hz, so the 20-second bound is 20 samples.
\<close>

definition toy_audio :: audio_lib where
  "toy_audio =
     \<lparr>ta_load = (\<lambda>b. if b = [] then Inl (LibError ''corrupt'') else Inr ([map real b], 1)),
      ta_resample = (\<lambda>sr t w. Inr w),
      ta_save = (\<lambda>w t. Inr [1])\<rparr>"

definition toy_asr :: asr_model where
  "toy_asr =
     \<lparr>load_audio = (\<lambda>b. Inr (map real b)), pad_or_trim = id,
      log_mel_spectrogram = (\<lambda>a. [a]), detect_language = (\<lambda>_. Inr [(''ja'', 1)]),
      decode = (\<lambda>_ _. Inr ''hi'')\<rparr>"

definition toy_config :: cfg_file where
  "toy_config = CfgJson (JObj [(''data'', JObj [(''sampling_rate'', JNum 1)])])"

definition toy_world :: "node \<Rightarrow> world" where
  "toy_world r =
     \<lparr>cuda_available = True, load_model = (\<lambda>_. Inr toy_asr), audio = toy_audio,
      corpus = Some r, config_file = toy_config\<rparr>"

definition toy_args :: "string \<Rightarrow> args" where
  "toy_args l = \<lparr>languages = l, whisper_size = ''medium''\<rparr>"

text \<open>A ten-second clip, a 25-second clip.\<close>

definition clip10 :: bytes where
  "clip10 = [1, 1, 1, 1, 1, 1, 1, 1, 1, 1]"

definition clip25 :: bytes where
  "clip25 = clip10 @ clip10 @ [1, 1, 1, 1, 1]"

definition corpus_one :: node where
  "corpus_one = Dir [(''spk'', Dir [(''a.wav'', File clip10)])]"

text \<open>A corrupted file and a non-audio file among good ones.\<close>

definition corpus_mixed :: node where
  "corpus_mixed =
     Dir [(''spk'', Dir [(''a.wav'', File clip10), (''bad.wav'', File []),
                        (''notes.txt'', File [1]), (''c.wav'', File clip10)])]"

text \<open>A 25-second clip; an empty corpus.\<close>

definition corpus_long :: node where
  "corpus_long = Dir [(''spk'', Dir [(''b.wav'', File clip25)])]"

definition corpus_empty :: node where
  "corpus_empty = Dir []"

text \<open>\<open>corpus_one\<close> after a run: the output sits beside the original.\<close>

definition corpus_one_after :: node where
  "corpus_one_after = Dir [(''spk'', Dir [(''a.wav'', File clip10), (''processed_0.wav'', File [1])])]"

text \<open>Two clips around a text file, the tree after a run over them, and the same
  directory listed with the outputs and the text file moved, the clips kept in
  place.\<close>

definition corpus_three :: node where
  "corpus_three = Dir [(''spk'', Dir [(''a.wav'', File clip10), (''notes.txt'', File [1]), (''b.wav'', File clip10)])]"

definition corpus_three_after :: node where
  "corpus_three_after = Dir [(''spk'', Dir [(''a.wav'', File clip10), (''notes.txt'', File [1]), (''b.wav'', File clip10),
                                           (''processed_0.wav'', File [1]), (''processed_2.wav'', File [1])])]"

definition corpus_three_relisted :: node where
  "corpus_three_relisted = Dir [(''spk'', Dir [(''a.wav'', File clip10), (''processed_2.wav'', File [1]),
                                              (''b.wav'', File clip10), (''notes.txt'', File [1]),
                                              (''processed_0.wav'', File [1])])]"

definition toy_ctx :: "int \<Rightarrow> ctx" where
  "toy_ctx t =
     \<lparr>lib = toy_audio, model = toy_asr, lang2token = select_lang2token ''CJKE'', target_sr = t,
      total_files = 1, parent_dir = parent_dir_path\<rparr>"

lemma nat_str_small:
  "nat_str 0 = ''0''" "nat_str (Suc 0) = ''1''" "nat_str (Suc (Suc 0)) = ''2''"
  "nat_str (Suc (Suc (Suc 0))) = ''3''"
  by code_simp+

lemmas run_eval =
  main_def main_ctx_def start_state_def toy_args_def toy_world_def toy_audio_def toy_asr_def
  toy_config_def speaker_names_def dir_entries_def child_def is_dir_node_def
  read_sampling_rate_def py_getitem_def select_lang2token_def process_speaker_def
  speaker_listing_def process_file_def skip_name_def endswith_def startswith_def normalize_def
  load_wav_def read_file_def lookup2_def resample_step_def mono_mix_def frames_def too_long_def
  save_wav_def write_file_def transcribe_one_def whisper_on_bytes_def emit_def Let_def
  report_empty_def manifest_content_def save_name_def nat_str_small py_join_def anno_line_def
  tag_text_def parent_dir_path_def clip10_def clip25_def

lemma toy_run_one:
  "\<exists>s. main (toy_args ''CJKE'') (toy_world corpus_one) =
       Finished s ''./custom_character_voice/spk/processed_0.wav|spk|[KO]hi[KO]\<newline>''"
  by (simp add: run_eval corpus_one_def)

end
