(* ===== verification/Spec2Isabelle.thy ===== *)
theory Spec2Isabelle
  imports Prelude Language Fs Normalizer Transcriber Walker Manifest Run Fixtures
begin

text \<open>
  \<^bold>\<open>A verification model of \<^verbatim>\<open>scripts/short_audio_transcribe.py\<close>.\<close>

  The repository's one source file, \<^verbatim>\<open>src/scripts/short_audio_transcribe.py\<close>
  (127 lines), prepares a speech corpus for fine-tuning.  It walks
  \<^verbatim>\<open>./custom_character_voice/<speaker>/*.wav\<close>, mixes each clip to mono,
  resamples it to the configured rate, drops clips longer than 20 seconds, saves
  the result as \<^verbatim>\<open>processed_<i>.wav\<close> beside the original, transcribes it with
  whisper, and writes one line \<^verbatim>\<open>path|speaker|[XX]text[XX]\<close> (with a final
  newline) per clip to \<^verbatim>\<open>short_character_anno.txt\<close>.  An exception in one
  file's processing is printed and the run goes on.

  \<^bold>\<open>Parts and theories.\<close>
  \<^item> \<open>Prelude\<close>: the Python built-ins the script uses (\<open>startswith\<close>,
    \<open>endswith\<close>, \<open>os.path.join\<close> as \<open>py_join\<close>, \<open>str(i)\<close> as \<open>nat_str\<close>
    with its inverse \<open>str_nat\<close>), the exceptions (\<open>py_exc\<close>), and shared lemmas
    on strings and lists; the collections \<open>pipeline_simps\<close> and \<open>name_lemmas\<close>.
  \<^item> \<open>Language\<close>: \<open>lang2token\<close>, its default (lines 9--14) and the
    \<^verbatim>\<open>--languages\<close> presets (lines 42--49) as \<open>select_lang2token\<close>.
  \<^item> \<open>Fs\<close>: the corpus directory as a tree (\<open>node\<close>) whose directory
    listings keep the filesystem's order; \<open>os.listdir\<close> (\<open>dir_entries\<close>),
    \<open>os.path.isdir\<close>, \<open>os.walk\<close> (\<open>os_walk\<close>, a \<open>function\<close> with its
    termination proof) and the file total of line 63 (\<open>walk_total\<close>, proved equal
    to the reference count \<open>count_files\<close>, in whose terms the theorems state the
    total), reading
    and writing a file of a speaker directory (\<open>read_file\<close>, \<open>write_file\<close>),
    with read-after-write and frame lemmas.
  \<^item> \<open>Normalizer\<close>: lines 81--98.  torchaudio is the interface record
    \<open>audio_lib\<close> (decode, resample, encode: any functions, each may raise).
    \<open>mono_mix\<close> is \<open>wav.mean(dim=0).unsqueeze(0)\<close>, \<open>resample_step\<close> the
    conditional resampling, \<open>too_long\<close> the guard of line 96 (with the
    \<open>ZeroDivisionError\<close> of a zero rate), \<open>normalize\<close> their composition,
    \<open>save_wav\<close> line 102.
  \<^item> \<open>Transcriber\<close>: \<open>transcribe_one\<close>, lines 17--33, and
    \<open>whisper_on_bytes\<close>, its part after the file is read.  whisper is the
    interface record \<open>asr_model\<close>; the detected language is discarded and
    \<open>''ko''\<close> forced, as the code does.
  \<^item> \<open>Walker\<close>: the loops of lines 71--120 with the state \<open>run_state\<close>
    (corpus tree, \<open>speaker_annos\<close>, \<open>processed_files\<close>, printed messages
    \<open>msg\<close>) and the loop constants \<open>ctx\<close>.  \<open>process_file\<close> is one
    iteration, the name filter of line 77 (\<open>skip_name\<close>) and the
    \<open>try\<close>/\<open>except\<close> included; \<open>process_files\<close> and \<open>process_speakers\<close>
    are the two loops.  \<open>file_anno\<close> is the contract of one iteration and
    \<open>corpus_annos\<close> that of a run, as pure functions of the corpus at the start.
  \<^item> \<open>Manifest\<close>: \<open>f.writelines\<close> (\<open>manifest_content\<close>) and a reader of
    the format the spec gives for the consumer (\<open>parse_manifest\<close>).
  \<^item> \<open>Run\<close>: the main block, lines 35--127, as \<open>main\<close> over a \<open>world\<close>
    (CUDA present, the model loader, the libraries, the corpus, the configuration
    file as parsed JSON), ending \<open>Aborted\<close>, \<open>Finished\<close> (final state and
    the manifest written) or \<open>OutOfModel\<close>; \<open>final_state\<close> and
    \<open>manifest_written\<close> read a completed run.
  \<^item> \<open>Fixtures\<close>: concrete instances of the interfaces for the witnesses
    (the target rate is 1 Hz there, so a ten-second
    clip is ten samples).

  \<^bold>\<open>What is proved.\<close>
  \<^item> Refinement (C1): a finished run's manifest is the concatenation, over
    speakers and files in listing order, of each file's contract evaluated on the
    corpus as it was at the start.  The files the run writes never change what
    later files yield, and a failing file contributes nothing while the others
    are unaffected: the failure-isolation wrapper of the spec.  The step lemma is
    \<open>process_file_annos\<close>; the non-interference argument uses the step relation
    \<open>writes_in\<close> (trees reachable by writing outputs into one speaker
    directory) and rule induction over it.
  \<^item> One file (C2, C4, C7, C16, C19): a record is added exactly when every
    stage succeeds and \<open>''ko''\<close> has a token; an over-long clip is skipped
    without writing anything; the script's own outputs are always skipped by the
    filter; with a target rate of 0 a clip that loads fails the duration check
    with \<open>ZeroDivisionError\<close>, which is printed; a write is the accepted clip
    encoded at the target rate, made before transcription.
  \<^item> Records (C3, C8, C13): no two records of a run coincide (paths differ
    by speaker and index, since \<open>str(i)\<close> is injective); every record of a
    run is a line \<^verbatim>\<open>path|speaker|[KO]text[KO]\<close> (the forced language and
    the token every preset gives it); the manifest reads back field by field
    when no field holds \<open>|\<close> or a newline.
  \<^item> Normaliser (C5, C6, C22): accepted clips have at most
    \<open>20 * target_sr\<close> samples; the mix has one channel holding the channels'
    mean; a negative target rate disables the 20-second guard.
  \<^item> Findings (C9, C10): under the presets CJE, CJ and C no record is ever
    produced, since the forced \<open>''ko''\<close> has no token; a completed run
    without records always writes an empty manifest (\<open>manifest_written\<close>),
    where the spec says the write is skipped (\<open>FinishedNoFile\<close>, which
    \<open>main\<close> never returns).
  \<^item> Run (C11, C12): the counter equals the number of records; the fatal
    conditions and what is printed before them.
  \<^item> Transcriber (C14, C15): what \<open>transcribe_one\<close> returns, and that the
    detector's answer has no influence on it.
  \<^item> Effects (C17, C18): the progress lines count \<open>1..n\<close> against the
    \<open>os.walk\<close> total; originals are never changed, only \<open>processed_*\<close>
    entries are written.
  \<^item> Accounting (C20, C21): every candidate file (a \<^verbatim>\<open>.wav\<close> not named
    \<open>processed_*\<close>) closes with exactly one outcome line (\<open>outcome\<close>: progress,
    too long, unsupported, error), so no clip is lost or reported twice; on a
    corpus whose directories have distinct entries (\<open>wf_corpus\<close>) the counter
    and the number of records stay within the \<open>os.walk\<close> total.
  \<^item> Output (C23): the whole printed output of a finished run is the two
    start-up lines, then one group per candidate file, in the order the loops
    meet the candidates, each an admissible trace for that file
    (\<open>file_trace\<close>; \<open>list_all2\<close> ties the groups to the candidates), and
    the no-valid-files notice exactly when there is no record.
  \<^item> Second run (C24): a finished run leaves the speaker names and the
    filtered listings unchanged, so running again reprocesses every original
    (the \<open>processed_\<close> guard only keeps the outputs out).
  \<^item> Detector (C25): the whole run is independent of what the language
    detector answers, only of whether it fails (lifting C15 through
    \<open>process_speakers_model_cong\<close>).
  \<^item> Presets (C26): an unknown \<^verbatim>\<open>--languages\<close> value runs as \<open>CJKE\<close>.
  \<^item> Disk (C27): every record names a \<open>processed_<j>.wav\<close> that exists at
    the end of the run and whose bytes transcribe to the record's text (an
    iteration writes only its own index, \<open>process_files_records\<close>).
  \<^item> Liveness (C28): every candidate file is handled, by its record or by a
    printed line naming it (\<open>handled\<close>, kept by \<open>grows\<close>).
  \<^item> Reruns (C29, C30): over any tree a run left behind, completed or killed
    after any prefix of its loops (\<open>outputs_written\<close>, reached by rule
    induction from \<open>writes_in\<close>), a new run writes the same manifest, since
    an output write only appends an output name to a listing
    (\<open>write_listing\<close>) and changes no contribution (\<open>write_speaker_block\<close>).
    The listing order is the filesystem's: C30 states the same for every
    order of that tree in which the entries passing the name filter keep their
    positions (\<open>originals\<close>; a block depends on the listing only through
    them, \<open>speaker_block_originals\<close>).  Once an original moves the manifest
    can change: a second run may then overwrite another clip's output.
  Every theorem with a hypothesis has a witness at the end of this theory.

  \<^bold>\<open>Not modelled.\<close>  The numerics of torchaudio and whisper (they are
  interface functions, and the theorems hold for all of them); float rounding of
  samples and of the duration quotient (exact for rates below \<open>2^48\<close>);
  argument parsing (the arguments are the record \<open>args\<close>); JSON parsing (the
  configuration is given parsed, or missing, or malformed); a sampling rate that
  is not an integer (\<open>OutOfModel\<close>); filesystem failures other than missing
  entries and directories in the place of files; the failure of the final
  \<open>open\<close>.  argparse and json are libraries the script only calls: modelling
  their parsers would translate no line of the script, so \<open>main\<close> takes the
  parsed arguments and configuration.  No loop of the script can run forever:
  the two loops are over finite listings and \<open>os.walk\<close> descends into
  subdirectories (its recursion is proved total on every tree,
  \<open>os_walk_in_dom\<close>), so every function of the model is total and needs no
  fuel.

  \<^bold>\<open>Further work.\<close>  Every statement of the script but its imports is
  translated; what remains outside the model is listed above.  The natural extensions are about the
  environment, not the script: a filesystem whose writes may place new entries
  anywhere (C30 already covers the trees such a filesystem produces as long as
  the originals keep their positions).
\<close>

section \<open>Properties of a whole run\<close>

lemma run_finished_annos:
  assumes run: "main a w = Finished s content" and c: "corpus w = Some r"
    and d: "distinct (dir_entries r)"
  shows "\<exists>m t. load_model w (whisper_size a) = Inr m \<and> read_sampling_rate (config_file w) = Inr (JNum t) \<and>
           speaker_annos s = corpus_annos (main_ctx a w m r t) r (speaker_names r) \<and>
           content = concat (speaker_annos s)"
proof -
  from run c obtain m t where m: "load_model w (whisper_size a) = Inr m"
      and t: "read_sampling_rate (config_file w) = Inr (JNum t)"
      and s: "s = report_empty (process_speakers (main_ctx a w m r t) (speaker_names r) (start_state r))"
      and ct: "content = manifest_content (speaker_annos s)"
    by (auto simp: main_Finished)
  from d have "distinct (speaker_names r)" by (rule speaker_names_distinct)
  then have "speaker_annos s = corpus_annos (main_ctx a w m r t) r (speaker_names r)"
    by (simp add: s process_speakers_annos start_state_def)
  with m t ct show ?thesis by (auto simp: manifest_content_def)
qed

lemma run_finished_state:
  "main a w = Finished s content \<Longrightarrow>
   \<exists>c r. s = report_empty (process_speakers c (speaker_names r) (start_state r)) \<and>
         content = concat (speaker_annos s) \<and> lang2token c = select_lang2token (languages a)"
  by (auto simp: main_Finished manifest_content_def main_ctx_def)

text \<open>Two finished runs over corpora with the same speakers and the same
  speaker blocks write the same manifest.\<close>

lemma run_content_blocks:
  assumes run: "main a w = Finished s content" and c: "corpus w = Some r" and d: "distinct (dir_entries r)"
    and de: "dir_entries r' = dir_entries r" and sn: "speaker_names r' = speaker_names r"
    and sb: "\<And>c. speaker_block c r' = speaker_block c r"
    and run': "main a (w\<lparr>corpus := Some r'\<rparr>) = Finished s' content'"
  shows "content' = content"
proof -
  let ?w' = "w\<lparr>corpus := Some r'\<rparr>"
  from run_finished_annos [OF run c d] obtain m t where m: "load_model w (whisper_size a) = Inr m"
      and t: "read_sampling_rate (config_file w) = Inr (JNum t)"
      and ct: "content = concat (corpus_annos (main_ctx a w m r t) r (speaker_names r))"
    by auto
  have "corpus ?w' = Some r'" by simp
  from run_finished_annos [OF run' this] d de obtain m' t' where "load_model ?w' (whisper_size a) = Inr m'"
      and "read_sampling_rate (config_file ?w') = Inr (JNum t')"
      and ct': "content' = concat (corpus_annos (main_ctx a ?w' m' r' t') r' (speaker_names r'))"
    by auto
  with m t have mt: "m' = m" "t' = t" by simp_all
  have "main_ctx a ?w' m r' t = (main_ctx a w m r t)\<lparr>total_files := walk_total parent_dir_path r'\<rparr>"
    by (simp add: main_ctx_def)
  then have "corpus_annos (main_ctx a ?w' m r' t) r' (speaker_names r') = corpus_annos (main_ctx a w m r t) r (speaker_names r)"
    by (simp add: corpus_annos_def sn sb speaker_block_total)
  with ct ct' mt show ?thesis by simp
qed

text \<open>C1: the manifest of a finished run is the concatenation, speaker by
  speaker and file by file in listing order, of what each file yields on the
  corpus as it was when the run started.\<close>

theorem run_manifest_refines:
  assumes "main a w = Finished s content" and "corpus w = Some r" and "distinct (dir_entries r)"
  shows "\<exists>m t. load_model w (whisper_size a) = Inr m \<and> read_sampling_rate (config_file w) = Inr (JNum t) \<and>
           content = concat (corpus_annos (main_ctx a w m r t) r (speaker_names r))"
  using run_finished_annos [OF assms] by auto

text \<open>C3: a run never writes the same annotation line twice, when the corpus
  entries have distinct names without a slash.\<close>

theorem no_duplicate_records:
  assumes "main a w = Finished s content" and "corpus w = Some r" and "distinct (dir_entries r)"
    and "\<forall>n \<in> set (dir_entries r). valid_name n"
  shows "distinct (speaker_annos s)"
proof -
  from run_finished_annos [OF assms(1-3)] obtain m t
    where "speaker_annos s = corpus_annos (main_ctx a w m r t) r (speaker_names r)"
    by blast
  moreover have "distinct (speaker_names r)"
    using assms(3) by (rule speaker_names_distinct)
  moreover have "\<forall>n \<in> set (speaker_names r). valid_name n"
    using assms(4) speaker_names_subset by blast
  ultimately show ?thesis by (simp add: distinct_corpus_annos)
qed

text \<open>C8: every record of a finished run has the form
  \<open>path|speaker|[KO]text[KO]\<close> followed by a newline: the recogniser is forced to
  Korean and the token of \<open>''ko''\<close> in every preset that has one is
  \<open>[KO]\<close>, so no record carries another language's tag.\<close>

theorem run_records_tagged_ko:
  assumes "main a w = Finished s content" and "x \<in> set (speaker_annos s)"
  shows "\<exists>p spk t. x = p @ ''|'' @ spk @ ''|[KO]'' @ t @ ''[KO]\<newline>''"
proof -
  let ?Q = "\<lambda>x. \<exists>p spk t. x = p @ ''|'' @ spk @ ''|[KO]'' @ t @ ''[KO]\<newline>''"
  from assms(1) obtain m cs t where
    s: "s = report_empty (process_speakers (main_ctx a w m (Dir cs) t) (speaker_names (Dir cs)) (start_state (Dir cs)))"
    by (auto simp: main_Finished)
  have "?Q y" if "y \<in> set (file_anno (main_ctx a w m (Dir cs) t) spk i f r)" for spk i f r y
  proof -
    from file_anno_token [OF that] obtain p tok tx
      where k: "map_of (select_lang2token (languages a)) ''ko'' = Some tok"
        and y: "y = anno_line p spk (tag_text tok tx)"
      by (auto simp: main_ctx_def)
    from k have "tok = ''[KO]''" by (simp add: select_lang2token_ko split: if_splits)
    with y show ?thesis by (auto simp: anno_line_def tag_text_def)
  qed
  then have "\<forall>x \<in> set (speaker_annos (process_speakers (main_ctx a w m (Dir cs) t) (speaker_names (Dir cs)) (start_state (Dir cs)))). ?Q x"
    by (intro process_speakers_records_all) (simp_all add: start_state_def)
  with s assms(2) show ?thesis by simp
qed

text \<open>C9: under the presets CJE, CJ and C the run produces no record at all:
  the transcriber forces \<open>''ko''\<close>, which these maps lack; the empty result
  is reported.\<close>

theorem restricted_preset_no_records:
  assumes "languages a \<in> {''CJE'', ''CJ'', ''C''}" and "main a w = Finished s content"
  shows "content = [] \<and> NoValidFiles \<in> set (out s)"
proof -
  from run_finished_state [OF assms(2)] obtain c r
    where s: "s = report_empty (process_speakers c (speaker_names r) (start_state r))"
      and ct: "content = concat (speaker_annos s)"
      and l: "lang2token c = select_lang2token (languages a)"
    by blast
  from assms(1) l have "map_of (lang2token c) ''ko'' = None"
    by (auto simp: select_lang2token_ko)
  then have e: "speaker_annos (process_speakers c (speaker_names r) (start_state r)) = []"
    by (simp add: process_speakers_no_ko start_state_def)
  with s ct show ?thesis by (simp add: report_empty_out)
qed

text \<open>C10: a completed run without records prints that no valid files were
  found and still writes the manifest, empty: line 126 stands outside the
  \<open>if\<close> of line 122, whereas the spec says the write is skipped.\<close>

theorem empty_manifest_still_written:
  assumes "final_state (main a w) = Some s" and "speaker_annos s = []"
  shows "manifest_written (main a w) = Some [] \<and> last (out s) = NoValidFiles"
proof -
  from assms(1) obtain content where run: "main a w = Finished s content"
    by (auto simp: main_def Let_def split: if_splits sum.splits option.splits node.splits json.splits)
  from run_finished_state [OF run] obtain c r
    where s: "s = report_empty (process_speakers c (speaker_names r) (start_state r))"
      and ct: "content = concat (speaker_annos s)"
    by blast
  with run assms(2) show ?thesis by (simp add: report_empty_out)
qed

text \<open>C11: at the end of a run the progress counter equals the number of records.\<close>

theorem run_counter_consistent:
  assumes "main a w = Finished s content"
  shows "processed_files s = length (speaker_annos s)"
proof -
  from run_finished_state [OF assms] obtain c r
    where s: "s = report_empty (process_speakers c (speaker_names r) (start_state r))"
    by blast
  have "counter_ok (start_state r)" by (simp add: counter_ok_def start_state_def)
  then have "counter_ok (process_speakers c (speaker_names r) (start_state r))"
    by (rule counter_ok_process_speakers)
  with s show ?thesis by (simp add: counter_ok_def)
qed

text \<open>C12: the fatal conditions, in the order the script meets them, and what
  it has printed when it stops: nothing before the corpus is listed, the speaker
  names and the file count after.\<close>

theorem main_abort_iff:
  "main a w = Aborted e outs \<longleftrightarrow>
     (\<not> cuda_available w \<and> e = AssertionError ''Please enable GPU in order to run Whisper!'' \<and> outs = []) \<or>
     (cuda_available w \<and> load_model w (whisper_size a) = Inl e \<and> outs = []) \<or>
     (cuda_available w \<and> (\<exists>m. load_model w (whisper_size a) = Inr m) \<and>
        ((corpus w = None \<and> e = FileNotFoundError parent_dir_path \<and> outs = []) \<or>
         ((\<exists>b. corpus w = Some (File b)) \<and> e = NotADirectoryError parent_dir_path \<and> outs = []) \<or>
         (\<exists>cs. corpus w = Some (Dir cs) \<and> read_sampling_rate (config_file w) = Inl e \<and>
               outs = [SpeakerNames (speaker_names (Dir cs)), TotalFiles (count_files (Dir cs))])))"
  by (auto simp: main_def Let_def start_state_def split: sum.splits option.splits node.splits json.splits)

text \<open>C17: the progress lines of a run are \<open>Processed: 1/N\<close>, \<open>Processed: 2/N\<close>,
  \<dots>, one per record and in order, where \<open>N\<close> counts every file under the
  corpus root.\<close>

theorem run_progress_messages:
  assumes "main a w = Finished s content" and "corpus w = Some r"
  shows "progress_msgs (out s) = map (\<lambda>k. (k, count_files r)) [1..<Suc (length (speaker_annos s))]"
proof -
  from assms obtain m t
    where s: "s = report_empty (process_speakers (main_ctx a w m r t) (speaker_names r) (start_state r))"
    by (auto simp: main_Finished)
  let ?c = "main_ctx a w m r t"
  have "progress_ok (total_files ?c) (start_state r)"
    by (simp add: progress_ok_def start_state_def progress_msgs_def)
  then have p: "progress_ok (total_files ?c) (process_speakers ?c (speaker_names r) (start_state r))"
    by (rule progress_ok_process_speakers)
  have "counter_ok (start_state r)" by (simp add: counter_ok_def start_state_def)
  then have "counter_ok (process_speakers ?c (speaker_names r) (start_state r))"
    by (rule counter_ok_process_speakers)
  with p s show ?thesis
    by (simp add: progress_ok_def counter_ok_def main_ctx_def)
qed

text \<open>C18: a run changes no entry of the corpus whose name does not start with
  \<open>processed_\<close>: the original recordings are never modified, moved or removed.\<close>

theorem run_preserves_sources:
  assumes "main a w = Finished s content" and "corpus w = Some r"
    and "\<not> startswith f ''processed_''"
  shows "lookup2 (root s) spk f = lookup2 r spk f"
proof -
  from assms(1,2) obtain m t
    where s: "s = report_empty (process_speakers (main_ctx a w m r t) (speaker_names r) (start_state r))"
    by (auto simp: main_Finished)
  from assms(3) show ?thesis
    by (simp add: s process_speakers_sources start_state_def)
qed

text \<open>C20: in a finished run every file of every speaker directory whose name
  does not start with \<open>processed_\<close> closes with exactly one outcome line: a
  progress line, a too-long notice, an unsupported-language notice or a
  caught error.  No candidate file is lost or reported twice.\<close>

theorem run_accounts_every_candidate:
  assumes run: "main a w = Finished s content" and c: "corpus w = Some r"
    and d: "distinct (dir_entries r)"
  shows "length (filter outcome (out s)) =
           sum_list (map (\<lambda>spk. candidates (speaker_listing r spk)) (speaker_names r))"
proof -
  from run c obtain cx where s: "s = report_empty (process_speakers cx (speaker_names r) (start_state r))"
    by (auto simp: main_Finished)
  from d have "distinct (speaker_names r)" by (rule speaker_names_distinct)
  then have "outcomes (process_speakers cx (speaker_names r) (start_state r)) =
      outcomes (start_state r) + sum_list (map (\<lambda>spk. candidates (speaker_listing (root (start_state r)) spk)) (speaker_names r))"
    by (rule outcomes_process_speakers)
  moreover have "outcomes (start_state r) = 0" and "root (start_state r) = r"
    by (simp_all add: outcomes_def start_state_def)
  ultimately have "outcomes (process_speakers cx (speaker_names r) (start_state r)) =
      sum_list (map (\<lambda>spk. candidates (speaker_listing r spk)) (speaker_names r))"
    by simp
  with s show ?thesis by (simp add: outcomes_def)
qed

text \<open>C21: the progress counter of a finished run, and the number of records
  it wrote, never exceed the number of files the script counted at start-up
  (\<open>total_files\<close>), on a corpus whose directories have distinct entries.\<close>

theorem run_progress_bounded:
  assumes run: "main a w = Finished s content" and c: "corpus w = Some r"
    and wf: "wf_corpus r"
  shows "processed_files s \<le> count_files r \<and> length (speaker_annos s) \<le> count_files r"
proof -
  from run c obtain cx cs where s: "s = report_empty (process_speakers cx (speaker_names r) (start_state r))"
      and r: "r = Dir cs"
    by (auto simp: main_Finished)
  from wf have d: "distinct (dir_entries r)" by (simp add: wf_corpus_def)
  from run_finished_annos [OF run c d] obtain m t
    where a: "speaker_annos s = corpus_annos (main_ctx a w m r t) r (speaker_names r)"
    by blast
  have "counter_ok (start_state r)" by (simp add: counter_ok_def start_state_def)
  then have "counter_ok (process_speakers cx (speaker_names r) (start_state r))"
    by (rule counter_ok_process_speakers)
  with s have k: "processed_files s = length (speaker_annos s)" by (simp add: counter_ok_def)
  from wf have "length (corpus_annos (main_ctx a w m r t) r (speaker_names r)) \<le> count_files r"
    unfolding r by (rule corpus_annos_le_count)
  with a k show ?thesis by simp
qed

text \<open>C23: what a finished run prints is the speaker names, the file count,
  then one group of lines per candidate file, in the order the loops meet the
  candidates (speaker by speaker, each speaker's listing filtered by line 77):
  the group of a file is its caught error, its too-long notice, or its
  transcript followed by the unsupported-language line or the progress line.
  The run ends with the no-valid-files notice exactly when it has no record.
  Speaker directories are listed once each (distinct root entries).\<close>

theorem run_message_order:
  assumes run: "main a w = Finished s content" and c: "corpus w = Some r" and d: "distinct (dir_entries r)"
  shows "\<exists>mss. out s = [SpeakerNames (speaker_names r), TotalFiles (count_files r)] @ concat mss @
                 (if speaker_annos s = [] then [NoValidFiles] else []) \<and>
               list_all2 (\<lambda>f ms. \<exists>k. file_trace f k (count_files r) ms)
                 (concat (map (\<lambda>spk. filter (\<lambda>f. \<not> skip_name f) (speaker_listing r spk)) (speaker_names r))) mss"
proof -
  from run c obtain m t where s: "s = report_empty (process_speakers (main_ctx a w m r t) (speaker_names r) (start_state r))"
    by (auto simp: main_Finished)
  have "distinct (speaker_names r)" using d by (rule speaker_names_distinct)
  then obtain mss where "out (process_speakers (main_ctx a w m r t) (speaker_names r) (start_state r)) =
        out (start_state r) @ concat mss"
      and "list_all2 (\<lambda>f ms. \<exists>k. file_trace f k (total_files (main_ctx a w m r t)) ms)
           (concat (map (\<lambda>spk. filter (\<lambda>f. \<not> skip_name f) (speaker_listing (root (start_state r)) spk)) (speaker_names r))) mss"
    using process_speakers_traces by blast
  with s show ?thesis
    by (intro exI [of _ mss]) (simp add: report_empty_def emit_def start_state_def main_ctx_def)
qed


text \<open>C24: running the script again over what a finished run left behind
  processes the same speakers and, in each, the same candidate files: the
  \<open>processed_\<close> guard keeps the outputs out but the originals are
  transcribed again.\<close>

theorem second_run_same_work:
  assumes run: "main a w = Finished s content" and c: "corpus w = Some r"
  shows "speaker_names (root s) = speaker_names r \<and>
         (\<forall>spk. filter (\<lambda>f. \<not> skip_name f) (speaker_listing (root s) spk) =
                filter (\<lambda>f. \<not> skip_name f) (speaker_listing r spk))"
proof -
  from run c obtain cx where s: "s = report_empty (process_speakers cx (speaker_names r) (start_state r))"
    by (auto simp: main_Finished)
  have "root (start_state r) = r" by (simp add: start_state_def)
  with s process_speakers_candidates [of cx "speaker_names r" "start_state r"] show ?thesis
    by (simp add: report_empty_def emit_def)
qed

text \<open>C25: the language detector is called for every transcription and its
  answer thrown away: a run with any other detector that fails exactly when
  the loaded model's detector fails, with the same exception, ends exactly as
  the original run (same state, same messages, same manifest).\<close>

theorem run_detector_irrelevant:
  assumes h: "\<forall>m x. map_sum id (\<lambda>_. ()) (d m x) = map_sum id (\<lambda>_. ()) (detect_language m x)"
  shows "main a (w\<lparr>load_model := \<lambda>z. map_sum id (\<lambda>m. m\<lparr>detect_language := d m\<rparr>) (load_model w z)\<rparr>) = main a w"
proof -
  let ?w = "w\<lparr>load_model := \<lambda>z. map_sum id (\<lambda>m. m\<lparr>detect_language := d m\<rparr>) (load_model w z)\<rparr>"
  have t: "transcribe_one (m\<lparr>detect_language := d m\<rparr>) r spk f = transcribe_one m r spk f" for m r spk f
    using whisper_on_bytes_detect [of "d m" m] h unfolding transcribe_one_def
    by (cases "read_file r spk f") simp_all
  have c: "main_ctx a ?w (m\<lparr>detect_language := d m\<rparr>) r t = (main_ctx a w m r t)\<lparr>model := m\<lparr>detect_language := d m\<rparr>\<rparr>"
    for m r t by (simp add: main_ctx_def)
  have p: "process_speakers (main_ctx a ?w (m\<lparr>detect_language := d m\<rparr>) r t) spks s =
      process_speakers (main_ctx a w m r t) spks s" for m r t spks s
    unfolding c by (rule process_speakers_model_cong) (simp add: t main_ctx_def)
  show ?thesis
    by (simp add: main_def Let_def p split: sum.split option.split node.split json.split)
qed

text \<open>C26: a \<^verbatim>\<open>--languages\<close> value outside the four presets is not rejected:
  the run behaves exactly as under \<open>CJKE\<close>, since the module-level default
  map is kept.\<close>

theorem run_unknown_preset:
  assumes "languages a \<notin> {''CJKE'', ''CJE'', ''CJ'', ''C''}"
  shows "main a w = main (a\<lparr>languages := ''CJKE''\<rparr>) w"
proof -
  from assms have "main_ctx a w m r t = main_ctx (a\<lparr>languages := ''CJKE''\<rparr>) w m r t" for m r t
    by (simp add: main_ctx_def select_lang2token_other)
  then show ?thesis by (simp add: main_def Let_def split: sum.split option.split node.split json.split)
qed

text \<open>C27: every record of a finished run names, in the corpus the run leaves
  behind, a file \<open>processed_<j>.wav\<close> of its speaker whose bytes the loaded
  model transcribes to the record's text: no later iteration overwrote it.\<close>

theorem run_records_on_disk:
  assumes run: "main a w = Finished s content" and c: "corpus w = Some r" and d: "distinct (dir_entries r)"
  shows "\<exists>m. load_model w (whisper_size a) = Inr m \<and>
           (\<forall>x \<in> set (speaker_annos s). \<exists>sp j tok tr b.
              x = anno_line (py_join (py_join parent_dir_path sp) (save_name j)) sp (tag_text tok tr) \<and>
              lookup2 (root s) sp (save_name j) = Some (File b) \<and> whisper_on_bytes m b = Inr (''ko'', tr))"
proof -
  from run c obtain m t where m: "load_model w (whisper_size a) = Inr m"
      and s: "s = report_empty (process_speakers (main_ctx a w m r t) (speaker_names r) (start_state r))"
    by (auto simp: main_Finished)
  let ?c = "main_ctx a w m r t"
  have "distinct (speaker_names r)" using d by (rule speaker_names_distinct)
  moreover have "\<forall>x \<in> set (speaker_annos (start_state r)). \<exists>sp j tok tr. x = rec_at ?c sp j tok tr \<and>
      backed ?c (root (start_state r)) sp j tr \<and> sp \<notin> set (speaker_names r)"
    by (simp add: start_state_def)
  ultimately have "\<forall>x \<in> set (speaker_annos (process_speakers ?c (speaker_names r) (start_state r))). \<exists>sp j tok tr.
      x = rec_at ?c sp j tok tr \<and> backed ?c (root (process_speakers ?c (speaker_names r) (start_state r))) sp j tr"
    by (rule process_speakers_records)
  with m s show ?thesis by (simp add: main_ctx_def)
qed

text \<open>C28: in a finished run, every candidate file of every speaker directory
  is handled: either its record, naming \<open>processed_<i>.wav\<close> for its position
  \<open>i\<close> in the listing, is in the manifest, or the run printed a line naming the
  file (a caught error, the too-long notice, or the unsupported-language
  notice).  No candidate is silently dropped.\<close>

theorem run_handles_every_candidate:
  assumes run: "main a w = Finished s content" and c: "corpus w = Some r" and d: "distinct (dir_entries r)"
    and spk: "spk \<in> set (speaker_names r)" and i: "i < length (speaker_listing r spk)"
    and f: "f = speaker_listing r spk ! i" and ns: "\<not> skip_name f"
  shows "(\<exists>tok tr. anno_line (py_join (py_join parent_dir_path spk) (save_name i)) spk (tag_text tok tr)
            \<in> set (speaker_annos s)) \<or>
         (\<exists>e. FileError f e \<in> set (out s)) \<or> SkipTooLong f \<in> set (out s) \<or>
         (\<exists>l. Unsupported l f \<in> set (out s))"
proof -
  from run c obtain m t where s: "s = report_empty (process_speakers (main_ctx a w m r t) (speaker_names r) (start_state r))"
    by (auto simp: main_Finished)
  let ?c = "main_ctx a w m r t"
  have "distinct (speaker_names r)" using d by (rule speaker_names_distinct)
  then have "handled (parent_dir ?c) spk i (speaker_listing (root (start_state r)) spk ! i)
      (process_speakers ?c (speaker_names r) (start_state r))"
    using spk i ns f by (intro process_speakers_handled) (simp_all add: start_state_def)
  then have "handled parent_dir_path spk i f (process_speakers ?c (speaker_names r) (start_state r))"
    using f by (simp add: main_ctx_def start_state_def)
  moreover have "grows (process_speakers ?c (speaker_names r) (start_state r)) s"
    by (auto simp: s grows_def report_empty_def emit_def)
  ultimately show ?thesis by (rule grows_handled)
qed

text \<open>C29: resumability.  Running the script again over any tree that a run
  left behind, completed or killed after any prefix of its loops
  (\<open>process_speakers_outputs\<close>, \<open>process_files_outputs\<close>), writes the same
  manifest as the first run: the \<open>processed_\<close> guard keeps the outputs out
  and every original keeps its index, as long as the filesystem lists the
  outputs after the entries that were already there.\<close>

theorem rerun_same_manifest:
  assumes run: "main a w = Finished s content" and c: "corpus w = Some r" and d: "distinct (dir_entries r)"
    and ow: "outputs_written r r'"
    and run': "main a (w\<lparr>corpus := Some r'\<rparr>) = Finished s' content'"
  shows "content' = content"
proof (rule run_content_blocks [OF run c d _ _ _ run'])
  from ow show "dir_entries r' = dir_entries r" and "speaker_names r' = speaker_names r"
    by (simp_all add: outputs_written_blocks)
  from ow show "speaker_block c r' = speaker_block c r" for c
    by (simp add: outputs_written_blocks fun_eq_iff)
qed

text \<open>C30: C29 for every listing order that keeps the originals in place.  The
  filesystem may list the tree a run left behind in any order in which every
  entry that passes the name filter keeps its position (\<open>originals\<close>):
  outputs and other files may move.  A new run then writes the same manifest.\<close>

theorem rerun_any_listing_order:
  assumes run: "main a w = Finished s content" and c: "corpus w = Some r" and d: "distinct (dir_entries r)"
    and ow: "outputs_written r r'"
    and de: "dir_entries r'' = dir_entries r'"
    and dirs: "\<And>x. is_dir_node (child r'' x) = is_dir_node (child r' x)"
    and files: "\<And>x. lookup2 r'' x = lookup2 r' x"
    and pos: "\<And>x. originals (speaker_listing r'' x) = originals (speaker_listing r x)"
    and run'': "main a (w\<lparr>corpus := Some r''\<rparr>) = Finished s'' content''"
  shows "content'' = content"
proof (rule run_content_blocks [OF run c d _ _ _ run''])
  from ow have sn': "speaker_names r' = speaker_names r" and de': "dir_entries r' = dir_entries r"
    by (simp_all add: outputs_written_blocks)
  with de show "dir_entries r'' = dir_entries r" by simp
  from de dirs sn' show "speaker_names r'' = speaker_names r"
    by (simp add: speaker_names_def)
  have fa: "file_anno c x j f r'' = file_anno c x j f r" for c x j f
  proof -
    have "file_anno c x j f r'' = file_anno c x j f r'"
      by (rule file_anno_cong) (simp_all add: files writable_def dirs)
    also have "\<dots> = file_anno c x j f r" using ow by (rule outputs_written_file_anno)
    finally show ?thesis .
  qed
  show "speaker_block c r'' = speaker_block c r" for c
    by (simp add: fun_eq_iff speaker_block_originals pos fa)
qed

section \<open>Witnesses\<close>

text \<open>Each theorem above applied where its hypotheses hold, on the fixtures.\<close>

theorem run_manifest_refines_witness:
  "\<exists>s content. main (toy_args ''CJKE'') (toy_world corpus_one) = Finished s content \<and>
     corpus (toy_world corpus_one) = Some corpus_one \<and> distinct (dir_entries corpus_one) \<and>
     (\<exists>m t. load_model (toy_world corpus_one) ''medium'' = Inr m \<and>
        read_sampling_rate (config_file (toy_world corpus_one)) = Inr (JNum t) \<and>
        content = concat (corpus_annos (main_ctx (toy_args ''CJKE'') (toy_world corpus_one) m corpus_one t)
                            corpus_one (speaker_names corpus_one)))"
proof -
  obtain s where run: "main (toy_args ''CJKE'') (toy_world corpus_one) =
      Finished s ''./custom_character_voice/spk/processed_0.wav|spk|[KO]hi[KO]\<newline>''"
    using toy_run_one by blast
  have c: "corpus (toy_world corpus_one) = Some corpus_one" by (simp add: toy_world_def)
  have d: "distinct (dir_entries corpus_one)" by (simp add: corpus_one_def dir_entries_def)
  from run_manifest_refines [OF run c d] c d run show ?thesis
    by (auto simp: toy_args_def)
qed

theorem process_file_record_iff_witness:
  "speaker_annos (process_file (toy_ctx 1) ''spk'' 0 ''a.wav'' (start_state corpus_one)) \<noteq>
     speaker_annos (start_state corpus_one) \<and>
   \<not> skip_name ''a.wav'' \<and> map_of (lang2token (toy_ctx 1)) ''ko'' \<noteq> None"
proof -
  have "speaker_annos (process_file (toy_ctx 1) ''spk'' 0 ''a.wav'' (start_state corpus_one)) \<noteq>
          speaker_annos (start_state corpus_one)"
    by (simp add: run_eval toy_ctx_def corpus_one_def)
  with process_file_record_iff [of "toy_ctx 1" "''spk''" 0 "''a.wav''" "start_state corpus_one"]
  show ?thesis by blast
qed

theorem no_duplicate_records_witness:
  "\<exists>s content. main (toy_args ''CJKE'') (toy_world corpus_one) = Finished s content \<and>
     distinct (speaker_annos s)"
proof -
  obtain s where run: "main (toy_args ''CJKE'') (toy_world corpus_one) =
      Finished s ''./custom_character_voice/spk/processed_0.wav|spk|[KO]hi[KO]\<newline>''"
    using toy_run_one by blast
  have c: "corpus (toy_world corpus_one) = Some corpus_one" by (simp add: toy_world_def)
  have d: "distinct (dir_entries corpus_one)" by (simp add: corpus_one_def dir_entries_def)
  have v: "\<forall>n \<in> set (dir_entries corpus_one). valid_name n"
    by (simp add: corpus_one_def dir_entries_def valid_name_def)
  from no_duplicate_records [OF run c d v] run show ?thesis by blast
qed

theorem process_file_too_long_witness:
  "\<not> skip_name ''b.wav'' \<and>
   load_wav toy_audio corpus_long ''spk'' ''b.wav'' = Inr ([map real clip25], 1) \<and>
   resample_step toy_audio 1 1 (mono_mix [map real clip25]) = Inr [map real clip25] \<and>
   (20::int) < int (frames [map real clip25]) \<and>
   process_file (toy_ctx 1) ''spk'' 0 ''b.wav'' (start_state corpus_long) =
     emit (SkipTooLong ''b.wav'') (start_state corpus_long)"
proof -
  have n: "\<not> skip_name ''b.wav''" by (simp add: skip_name_def endswith_def startswith_def)
  have l: "load_wav (lib (toy_ctx 1)) (root (start_state corpus_long)) ''spk'' ''b.wav'' = Inr ([map real clip25], 1)"
    by (simp add: run_eval toy_ctx_def corpus_long_def)
  have r: "resample_step (lib (toy_ctx 1)) 1 (target_sr (toy_ctx 1)) (mono_mix [map real clip25]) = Inr [map real clip25]"
    by (simp add: resample_step_def toy_ctx_def)
  have p: "0 < target_sr (toy_ctx 1)" by (simp add: toy_ctx_def)
  have f: "20 * target_sr (toy_ctx 1) < int (frames [map real clip25])"
    by (simp add: toy_ctx_def frames_def clip25_def clip10_def)
  from process_file_too_long [OF n l r p f] n l r f show ?thesis
    by (simp add: toy_ctx_def start_state_def)
qed

theorem normalize_accepted_bound_witness:
  "normalize toy_audio 1 corpus_one ''spk'' ''a.wav'' = Inr (Accepted [map real clip10]) \<and>
   int (frames [map real clip10]) \<le> 20"
proof -
  have a: "normalize toy_audio 1 corpus_one ''spk'' ''a.wav'' = Inr (Accepted [map real clip10])"
    by (simp add: run_eval corpus_one_def)
  from normalize_accepted_bound [OF _ a] a show ?thesis by simp
qed

theorem mono_mix_rect_witness:
  "rect [[1, 2], [3, 4]] \<and> mono_mix [[1, 2], [3, 4]] ! 0 ! 1 = 3"
proof -
  have r: "rect [[1, 2], [3, (4::real)]]" by (simp add: rect_def frames_def)
  have k: "(1::nat) < frames [[1, 2], [3, (4::real)]]" by (simp add: frames_def)
  from mono_mix_rect [OF r] have "\<forall>k < frames [[1, 2], [3, (4::real)]].
      mono_mix [[1, 2], [3, 4]] ! 0 ! k = sum_list (map (\<lambda>c. c ! k) [[1, 2], [3, (4::real)]]) / real (length [[1, 2], [3, (4::real)]])"
    by simp
  with k have "mono_mix [[1, 2], [3, (4::real)]] ! 0 ! 1 =
          sum_list (map (\<lambda>c. c ! 1) [[1, 2], [3, (4::real)]]) / real (length [[1, 2], [3, (4::real)]])"
    by blast
  with r show ?thesis by simp
qed

theorem process_file_output_skipped_witness:
  "process_file (toy_ctx 1) ''spk'' 5 (save_name 0) (start_state corpus_one) = start_state corpus_one"
  by (rule process_file_output_skipped)

theorem run_records_tagged_ko_witness:
  "\<exists>s. main (toy_args ''CJKE'') (toy_world corpus_one) =
       Finished s ''./custom_character_voice/spk/processed_0.wav|spk|[KO]hi[KO]\<newline>'' \<and>
     ''./custom_character_voice/spk/processed_0.wav|spk|[KO]hi[KO]\<newline>'' \<in> set (speaker_annos s) \<and>
     (\<exists>p spk t. ''./custom_character_voice/spk/processed_0.wav|spk|[KO]hi[KO]\<newline>'' =
        p @ ''|'' @ spk @ ''|[KO]'' @ t @ ''[KO]\<newline>'')"
proof -
  have "\<exists>s. main (toy_args ''CJKE'') (toy_world corpus_one) =
       Finished s ''./custom_character_voice/spk/processed_0.wav|spk|[KO]hi[KO]\<newline>'' \<and>
     speaker_annos s = [''./custom_character_voice/spk/processed_0.wav|spk|[KO]hi[KO]\<newline>'']"
    by (simp add: run_eval corpus_one_def)
  then obtain s where run: "main (toy_args ''CJKE'') (toy_world corpus_one) =
       Finished s ''./custom_character_voice/spk/processed_0.wav|spk|[KO]hi[KO]\<newline>''"
    and x: "''./custom_character_voice/spk/processed_0.wav|spk|[KO]hi[KO]\<newline>'' \<in> set (speaker_annos s)"
    by auto
  from run_records_tagged_ko [OF run x] run x show ?thesis by blast
qed

theorem restricted_preset_no_records_witness:
  "languages (toy_args ''CJE'') \<in> {''CJE'', ''CJ'', ''C''} \<and>
   (\<exists>s content. main (toy_args ''CJE'') (toy_world corpus_one) = Finished s content \<and>
      content = [] \<and> NoValidFiles \<in> set (out s))"
proof -
  have l: "languages (toy_args ''CJE'') \<in> {''CJE'', ''CJ'', ''C''}" by (simp add: toy_args_def)
  have "\<exists>s content. main (toy_args ''CJE'') (toy_world corpus_one) = Finished s content"
    by (simp add: run_eval corpus_one_def)
  then obtain s content where run: "main (toy_args ''CJE'') (toy_world corpus_one) = Finished s content"
    by blast
  from restricted_preset_no_records [OF l run] l run show ?thesis by blast
qed

theorem empty_manifest_still_written_witness:
  "\<exists>s. final_state (main (toy_args ''CJKE'') (toy_world corpus_empty)) = Some s \<and> speaker_annos s = [] \<and>
     manifest_written (main (toy_args ''CJKE'') (toy_world corpus_empty)) = Some [] \<and> last (out s) = NoValidFiles"
proof -
  have "\<exists>s. main (toy_args ''CJKE'') (toy_world corpus_empty) = Finished s [] \<and> speaker_annos s = []"
    by (simp add: run_eval corpus_empty_def)
  then obtain s where run: "final_state (main (toy_args ''CJKE'') (toy_world corpus_empty)) = Some s"
    and e: "speaker_annos s = []" by auto
  from empty_manifest_still_written [OF run e] run e show ?thesis by blast
qed

theorem run_counter_consistent_witness:
  "\<exists>s content. main (toy_args ''CJKE'') (toy_world corpus_one) = Finished s content \<and>
     processed_files s = length (speaker_annos s)"
proof -
  obtain s where run: "main (toy_args ''CJKE'') (toy_world corpus_one) =
      Finished s ''./custom_character_voice/spk/processed_0.wav|spk|[KO]hi[KO]\<newline>''"
    using toy_run_one by blast
  from run_counter_consistent [OF run] run show ?thesis by blast
qed

theorem main_abort_iff_witness:
  "main (toy_args ''CJKE'') ((toy_world corpus_one)\<lparr>cuda_available := False\<rparr>) =
     Aborted (AssertionError ''Please enable GPU in order to run Whisper!'') []"
  using main_abort_iff [of "toy_args ''CJKE''" "(toy_world corpus_one)\<lparr>cuda_available := False\<rparr>"]
  by simp

theorem transcribe_one_Inr_witness:
  "transcribe_one toy_asr corpus_one ''spk'' ''a.wav'' = Inr (''ko'', ''hi'') \<and>
   decode toy_asr [map real clip10] \<lparr>beam_size = 5, language = ''ko''\<rparr> = Inr ''hi''"
proof -
  have t: "transcribe_one toy_asr corpus_one ''spk'' ''a.wav'' = Inr (''ko'', ''hi'')"
    by (simp add: run_eval corpus_one_def)
  from t transcribe_one_Inr [of toy_asr corpus_one "''spk''" "''a.wav''" "''ko''" "''hi''"] show ?thesis
    by (auto simp: toy_asr_def)
qed

theorem whisper_detect_irrelevant_witness:
  "(\<forall>x. map_sum id (\<lambda>_. ()) ((\<lambda>_. Inr [(''ko'', 1)]) x :: py_exc + (string \<times> real) list) =
        map_sum id (\<lambda>_. ()) (detect_language toy_asr x)) \<and>
   transcribe_one (toy_asr\<lparr>detect_language := (\<lambda>_. Inr [(''ko'', 1)])\<rparr>) corpus_one ''spk'' ''a.wav'' =
     transcribe_one toy_asr corpus_one ''spk'' ''a.wav''"
proof -
  have h: "\<forall>x. map_sum id (\<lambda>_. ()) ((\<lambda>_. Inr [(''ko'', 1)]) x :: py_exc + (string \<times> real) list) =
        map_sum id (\<lambda>_. ()) (detect_language toy_asr x)"
    by (simp add: toy_asr_def)
  from h whisper_detect_irrelevant [OF h] show ?thesis by blast
qed

theorem process_file_zero_rate_witness:
  "\<not> skip_name ''a.wav'' \<and>
   load_wav toy_audio corpus_one ''spk'' ''a.wav'' = Inr ([map real clip10], 1) \<and>
   resample_step toy_audio 1 0 (mono_mix [map real clip10]) = Inr [map real clip10] \<and>
   process_file (toy_ctx 0) ''spk'' 0 ''a.wav'' (start_state corpus_one) =
     emit (FileError ''a.wav'' ZeroDivisionError) (start_state corpus_one)"
proof -
  have z: "target_sr (toy_ctx 0) = 0" by (simp add: toy_ctx_def)
  have n: "\<not> skip_name ''a.wav''" by (simp add: skip_name_def endswith_def startswith_def)
  have l: "load_wav (lib (toy_ctx 0)) (root (start_state corpus_one)) ''spk'' ''a.wav'' = Inr ([map real clip10], 1)"
    by (simp add: run_eval toy_ctx_def corpus_one_def)
  have r: "resample_step (lib (toy_ctx 0)) 1 0 (mono_mix [map real clip10]) = Inr [map real clip10]"
    by (simp add: run_eval toy_ctx_def)
  from process_file_zero_rate [OF z n l r] n l r show ?thesis
    by (simp add: toy_ctx_def start_state_def)
qed

theorem manifest_roundtrip_witness:
  "parse_manifest (manifest_content (map (\<lambda>(p, spk, tok, tr). anno_line p spk (tag_text tok tr))
      [(''a/processed_0.wav'', ''spk'', ''[KO]'', ''hi'')])) = [[''a/processed_0.wav'', ''spk'', ''[KO]hi[KO]'']]"
proof -
  have ok: "\<forall>(p, spk, tok, tr) \<in> set [(''a/processed_0.wav'', ''spk'', ''[KO]'', ''hi'')].
              field_ok p \<and> field_ok spk \<and> field_ok (tok @ tr @ tok)"
    by (simp add: field_ok_def)
  from manifest_roundtrip [OF ok] show ?thesis by simp
qed

theorem run_progress_messages_witness:
  "\<exists>s content. main (toy_args ''CJKE'') (toy_world corpus_one) = Finished s content \<and>
     progress_msgs (out s) = map (\<lambda>k. (k, count_files corpus_one)) [1..<Suc (length (speaker_annos s))]"
proof -
  obtain s where run: "main (toy_args ''CJKE'') (toy_world corpus_one) =
      Finished s ''./custom_character_voice/spk/processed_0.wav|spk|[KO]hi[KO]\<newline>''"
    using toy_run_one by blast
  have c: "corpus (toy_world corpus_one) = Some corpus_one" by (simp add: toy_world_def)
  from run_progress_messages [OF run c] run show ?thesis by blast
qed

theorem run_preserves_sources_witness:
  "\<exists>s content. main (toy_args ''CJKE'') (toy_world corpus_one) = Finished s content \<and>
     \<not> startswith ''a.wav'' ''processed_'' \<and>
     lookup2 (root s) ''spk'' ''a.wav'' = lookup2 corpus_one ''spk'' ''a.wav''"
proof -
  obtain s where run: "main (toy_args ''CJKE'') (toy_world corpus_one) =
      Finished s ''./custom_character_voice/spk/processed_0.wav|spk|[KO]hi[KO]\<newline>''"
    using toy_run_one by blast
  have c: "corpus (toy_world corpus_one) = Some corpus_one" by (simp add: toy_world_def)
  have n: "\<not> startswith ''a.wav'' ''processed_''" by (simp add: startswith_def)
  from run_preserves_sources [OF run c n] run n show ?thesis by blast
qed

theorem process_file_writes_witness:
  "root (process_file (toy_ctx 1) ''spk'' 0 ''a.wav'' (start_state corpus_one)) \<noteq> corpus_one \<and>
   (\<exists>wav b. normalize toy_audio 1 corpus_one ''spk'' ''a.wav'' = Inr (Accepted wav) \<and>
      ta_save toy_audio wav 1 = Inr b \<and>
      write_file corpus_one ''spk'' (save_name 0) b =
        Inr (root (process_file (toy_ctx 1) ''spk'' 0 ''a.wav'' (start_state corpus_one))))"
proof -
  have ne: "root (process_file (toy_ctx 1) ''spk'' 0 ''a.wav'' (start_state corpus_one)) \<noteq>
              root (start_state corpus_one)"
    by (simp add: run_eval toy_ctx_def corpus_one_def)
  from process_file_writes [OF ne] ne show ?thesis
    by (simp add: toy_ctx_def start_state_def)
qed

theorem run_accounts_every_candidate_witness:
  "\<exists>s content. main (toy_args ''CJKE'') (toy_world corpus_one) = Finished s content \<and>
     length (filter outcome (out s)) = 1"
proof -
  obtain s where run: "main (toy_args ''CJKE'') (toy_world corpus_one) =
      Finished s ''./custom_character_voice/spk/processed_0.wav|spk|[KO]hi[KO]\<newline>''"
    using toy_run_one by blast
  have "length (filter outcome (out s)) =
      sum_list (map (\<lambda>spk. candidates (speaker_listing corpus_one spk)) (speaker_names corpus_one))"
    using run_accounts_every_candidate [OF run] by (simp add: toy_world_def corpus_one_def dir_entries_def)
  also have "\<dots> = 1" by (simp add: run_eval corpus_one_def candidates_def)
  finally show ?thesis using run by blast
qed

theorem run_progress_bounded_witness:
  "\<exists>s content. main (toy_args ''CJKE'') (toy_world corpus_one) = Finished s content \<and>
     processed_files s \<le> 1"
proof -
  obtain s where run: "main (toy_args ''CJKE'') (toy_world corpus_one) =
      Finished s ''./custom_character_voice/spk/processed_0.wav|spk|[KO]hi[KO]\<newline>''"
    using toy_run_one by blast
  have "processed_files s \<le> count_files corpus_one \<and> length (speaker_annos s) \<le> count_files corpus_one"
  proof (rule run_progress_bounded [OF run])
    show "corpus (toy_world corpus_one) = Some corpus_one" by (simp add: toy_world_def)
    show "wf_corpus corpus_one"
      by (simp add: wf_corpus_def corpus_one_def dir_entries_def child_def)
  qed
  moreover have "count_files corpus_one = 1" by (simp add: corpus_one_def)
  ultimately show ?thesis using run by auto
qed

theorem normalize_neg_rate_witness:
  "(-1::int) < 0 \<and> normalize toy_audio (-1) corpus_one ''spk'' ''a.wav'' \<noteq> Inr TooLongClip"
  using Normalizer.normalize_neg_rate [of "-1" toy_audio corpus_one "''spk''" "''a.wav''"] by simp

theorem run_message_order_witness:
  "\<exists>s content. main (toy_args ''CJKE'') (toy_world corpus_one) = Finished s content \<and>
     (\<exists>mss. out s = [SpeakerNames (speaker_names corpus_one), TotalFiles (count_files corpus_one)] @ concat mss @
                 (if speaker_annos s = [] then [NoValidFiles] else []) \<and>
               list_all2 (\<lambda>f ms. \<exists>k. file_trace f k (count_files corpus_one) ms)
                 (concat (map (\<lambda>spk. filter (\<lambda>f. \<not> skip_name f) (speaker_listing corpus_one spk))
                   (speaker_names corpus_one))) mss)"
proof -
  obtain s where run: "main (toy_args ''CJKE'') (toy_world corpus_one) =
      Finished s ''./custom_character_voice/spk/processed_0.wav|spk|[KO]hi[KO]\<newline>''"
    using toy_run_one by blast
  have c: "corpus (toy_world corpus_one) = Some corpus_one" by (simp add: toy_world_def)
  have d: "distinct (dir_entries corpus_one)" by (simp add: corpus_one_def dir_entries_def)
  from run_message_order [OF run c d] run show ?thesis by blast
qed

theorem second_run_same_work_witness:
  "\<exists>s content. main (toy_args ''CJKE'') (toy_world corpus_one) = Finished s content \<and>
     speaker_names (root s) = speaker_names corpus_one \<and>
     filter (\<lambda>f. \<not> skip_name f) (speaker_listing (root s) ''spk'') =
       filter (\<lambda>f. \<not> skip_name f) (speaker_listing corpus_one ''spk'')"
proof -
  obtain s where run: "main (toy_args ''CJKE'') (toy_world corpus_one) =
      Finished s ''./custom_character_voice/spk/processed_0.wav|spk|[KO]hi[KO]\<newline>''"
    using toy_run_one by blast
  have "corpus (toy_world corpus_one) = Some corpus_one" by (simp add: toy_world_def)
  from second_run_same_work [OF run this] run show ?thesis by blast
qed

theorem run_detector_irrelevant_witness:
  "(\<forall>m x. map_sum id (\<lambda>_. ()) (map_sum id (\<lambda>_. [(''en'', 1::real)]) (detect_language m x)) =
          map_sum id (\<lambda>_. ()) (detect_language m x)) \<and>
   main (toy_args ''CJKE'') ((toy_world corpus_one)\<lparr>load_model := \<lambda>z. map_sum id
      (\<lambda>m. m\<lparr>detect_language := \<lambda>x. map_sum id (\<lambda>_. [(''en'', 1)]) (detect_language m x)\<rparr>)
      (load_model (toy_world corpus_one) z)\<rparr>) = main (toy_args ''CJKE'') (toy_world corpus_one)"
  using run_detector_irrelevant [of "\<lambda>m x. map_sum id (\<lambda>_. [(''en'', 1)]) (detect_language m x)"
      "toy_args ''CJKE''" "toy_world corpus_one"]
  by (simp add: sum.map_comp comp_def id_def)

theorem run_unknown_preset_witness:
  "languages (toy_args ''EN'') \<notin> {''CJKE'', ''CJE'', ''CJ'', ''C''} \<and>
   main (toy_args ''EN'') (toy_world corpus_one) =
     main ((toy_args ''EN'')\<lparr>languages := ''CJKE''\<rparr>) (toy_world corpus_one)"
  using run_unknown_preset [of "toy_args ''EN''" "toy_world corpus_one"]
  by (simp add: toy_args_def)

theorem run_records_on_disk_witness:
  "\<exists>s content. main (toy_args ''CJKE'') (toy_world corpus_one) = Finished s content \<and>
     (\<exists>m. load_model (toy_world corpus_one) ''medium'' = Inr m \<and>
       (\<forall>x \<in> set (speaker_annos s). \<exists>sp j tok tr b.
          x = anno_line (py_join (py_join parent_dir_path sp) (save_name j)) sp (tag_text tok tr) \<and>
          lookup2 (root s) sp (save_name j) = Some (File b) \<and> whisper_on_bytes m b = Inr (''ko'', tr)))"
proof -
  obtain s where run: "main (toy_args ''CJKE'') (toy_world corpus_one) =
      Finished s ''./custom_character_voice/spk/processed_0.wav|spk|[KO]hi[KO]\<newline>''"
    using toy_run_one by blast
  have "corpus (toy_world corpus_one) = Some corpus_one" by (simp add: toy_world_def)
  moreover have "distinct (dir_entries corpus_one)" by (simp add: corpus_one_def dir_entries_def)
  ultimately show ?thesis using run_records_on_disk [OF run] run by (auto simp: toy_args_def)
qed

theorem run_handles_every_candidate_witness:
  "\<exists>s content. main (toy_args ''CJKE'') (toy_world corpus_mixed) = Finished s content \<and>
     ((\<exists>tok tr. anno_line (py_join (py_join parent_dir_path ''spk'') (save_name 1)) ''spk'' (tag_text tok tr)
          \<in> set (speaker_annos s)) \<or>
      (\<exists>e. FileError ''bad.wav'' e \<in> set (out s)) \<or> SkipTooLong ''bad.wav'' \<in> set (out s) \<or>
      (\<exists>l. Unsupported l ''bad.wav'' \<in> set (out s)))"
proof -
  obtain s where run: "main (toy_args ''CJKE'') (toy_world corpus_mixed) =
      Finished s (''./custom_character_voice/spk/processed_0.wav|spk|[KO]hi[KO]\<newline>'' @
                  ''./custom_character_voice/spk/processed_3.wav|spk|[KO]hi[KO]\<newline>'')"
    by (simp add: run_eval corpus_mixed_def)
  have "corpus (toy_world corpus_mixed) = Some corpus_mixed" by (simp add: toy_world_def)
  moreover have "distinct (dir_entries corpus_mixed)" by (simp add: corpus_mixed_def dir_entries_def)
  moreover have "''spk'' \<in> set (speaker_names corpus_mixed)"
    by (simp add: corpus_mixed_def speaker_names_def dir_entries_def child_def is_dir_node_def)
  moreover have "1 < length (speaker_listing corpus_mixed ''spk'')"
    by (simp add: corpus_mixed_def speaker_listing_def dir_entries_def child_def)
  moreover have "''bad.wav'' = speaker_listing corpus_mixed ''spk'' ! 1"
    by (simp add: corpus_mixed_def speaker_listing_def dir_entries_def child_def)
  moreover have "\<not> skip_name ''bad.wav''" by (simp add: skip_name_def endswith_def startswith_def)
  ultimately have "(\<exists>tok tr. anno_line (py_join (py_join parent_dir_path ''spk'') (save_name 1)) ''spk'' (tag_text tok tr)
            \<in> set (speaker_annos s)) \<or>
         (\<exists>e. FileError ''bad.wav'' e \<in> set (out s)) \<or> SkipTooLong ''bad.wav'' \<in> set (out s) \<or>
         (\<exists>l. Unsupported l ''bad.wav'' \<in> set (out s))"
    by (rule run_handles_every_candidate [OF run])
  with run show ?thesis by blast
qed

theorem rerun_same_manifest_witness:
  "\<exists>s s' content content'. main (toy_args ''CJKE'') (toy_world corpus_one) = Finished s content \<and>
     main (toy_args ''CJKE'') ((toy_world corpus_one)\<lparr>corpus := Some corpus_one_after\<rparr>) = Finished s' content' \<and>
     content' = content"
proof -
  obtain s where run: "main (toy_args ''CJKE'') (toy_world corpus_one) =
      Finished s ''./custom_character_voice/spk/processed_0.wav|spk|[KO]hi[KO]\<newline>''"
    using toy_run_one by blast
  have w: "write_file corpus_one ''spk'' (save_name 0) [1] = Inr corpus_one_after"
    by (simp add: write_file_def corpus_one_def corpus_one_after_def save_name_def nat_str_small)
  have ow: "outputs_written corpus_one corpus_one_after"
    by (rule ow_step [OF ow_refl w])
  obtain s' content' where run': "main (toy_args ''CJKE'') ((toy_world corpus_one)\<lparr>corpus := Some corpus_one_after\<rparr>) =
      Finished s' content'"
    by (simp add: run_eval corpus_one_after_def clip10_def report_empty_def)
  have "corpus (toy_world corpus_one) = Some corpus_one" by (simp add: toy_world_def)
  moreover have "distinct (dir_entries corpus_one)" by (simp add: corpus_one_def dir_entries_def)
  ultimately have "content' = ''./custom_character_voice/spk/processed_0.wav|spk|[KO]hi[KO]\<newline>''"
    using rerun_same_manifest [OF run _ _ ow run'] by blast
  with run run' show ?thesis by blast
qed

theorem rerun_any_listing_order_witness:
  "\<exists>s s'' content content''. main (toy_args ''CJKE'') (toy_world corpus_three) = Finished s content \<and>
     main (toy_args ''CJKE'') ((toy_world corpus_three)\<lparr>corpus := Some corpus_three_relisted\<rparr>) =
       Finished s'' content'' \<and> content'' = content"
proof -
  obtain s content where run: "main (toy_args ''CJKE'') (toy_world corpus_three) = Finished s content"
    by (simp add: run_eval corpus_three_def clip10_def report_empty_def)
  let ?r1 = "Dir [(''spk'', Dir [(''a.wav'', File clip10), (''notes.txt'', File [1]), (''b.wav'', File clip10),
                                 (''processed_0.wav'', File [1])])]"
  have w1: "write_file corpus_three ''spk'' (save_name 0) [1] = Inr ?r1"
    by (simp add: write_file_def corpus_three_def save_name_def nat_str_small)
  have w2: "write_file ?r1 ''spk'' (save_name (Suc (Suc 0))) [1] = Inr corpus_three_after"
    by (simp add: write_file_def corpus_three_after_def save_name_def nat_str_small)
  have ow: "outputs_written corpus_three corpus_three_after"
    by (rule ow_step [OF ow_step [OF ow_refl w1] w2])
  obtain s'' content'' where run'': "main (toy_args ''CJKE'') ((toy_world corpus_three)\<lparr>corpus := Some corpus_three_relisted\<rparr>) =
      Finished s'' content''"
    by (simp add: run_eval corpus_three_relisted_def clip10_def report_empty_def)
  have "content'' = content"
  proof (rule rerun_any_listing_order [OF run _ _ ow _ _ _ _ run''])
    show "corpus (toy_world corpus_three) = Some corpus_three" by (simp add: toy_world_def)
    show "distinct (dir_entries corpus_three)" by (simp add: corpus_three_def dir_entries_def)
    show "dir_entries corpus_three_relisted = dir_entries corpus_three_after"
      by (simp add: corpus_three_relisted_def corpus_three_after_def dir_entries_def)
    show "is_dir_node (child corpus_three_relisted x) = is_dir_node (child corpus_three_after x)" for x
      by (simp add: corpus_three_relisted_def corpus_three_after_def child_def is_dir_node_def)
    show "lookup2 corpus_three_relisted x = lookup2 corpus_three_after x" for x
      by (auto simp: fun_eq_iff lookup2_def child_def corpus_three_relisted_def corpus_three_after_def)
    show "originals (speaker_listing corpus_three_relisted x) = originals (speaker_listing corpus_three x)" for x
      by (simp add: originals_def speaker_listing_def child_def dir_entries_def corpus_three_relisted_def
          corpus_three_def skip_name_def endswith_def startswith_def)
  qed
  with run run'' show ?thesis by blast
qed

end
